theory Spec2Isabelle
  imports Main "HOL-Library.AList"
begin

section \<open>JavaScript values\<close>

text \<open>
  The values that flow through the template engine of \<^verbatim>\<open>template.js\<close>: what an observable
  attribute holds, what a transform callback returns, what ends up in the DOM.
  Numbers are the integers plus \<^verbatim>\<open>NaN\<close> (fractions and infinities behave like a non-zero
  integer in every test the file makes, \<^verbatim>\<open>-0\<close> like \<^verbatim>\<open>0\<close>). \<open>JObj s\<close> is any
  other non-primitive value (an object, an array, a function) that is not written out in
  a definition: the code tests such a value for truthiness and converts it to a string,
  and \<open>s\<close> is that string; it is taken to have none of the properties the file reads from
  a value (\<^verbatim>\<open>ns\<close>, \<^verbatim>\<open>value\<close>, \<^verbatim>\<open>observable\<close>) and nothing to enumerate.
\<close>

datatype jsval =
    Undefined
  | Null
  | JBool bool
  | JNum int
  | JNaN
  | JStr string
  | JObj string

text \<open>JavaScript's \<^verbatim>\<open>ToBoolean\<close>: what \<^verbatim>\<open>!v\<close>, \<^verbatim>\<open>v ? a : b\<close> and \<^verbatim>\<open>v || w\<close> test.\<close>

fun truthy :: "jsval \<Rightarrow> bool" where
  "truthy Undefined = False"
| "truthy Null = False"
| "truthy (JBool b) = b"
| "truthy (JNum n) = (n \<noteq> 0)"
| "truthy JNaN = False"
| "truthy (JStr s) = (s \<noteq> [])"
| "truthy (JObj s) = True"

text \<open>\<^verbatim>\<open>v || w\<close>\<close>

definition js_or :: "jsval \<Rightarrow> jsval \<Rightarrow> jsval" where
  "js_or v w = (if truthy v then v else w)"

text \<open>
  \<^verbatim>\<open>function isFalsy( value ) { return !value && value !== 0; }\<close>
\<close>

definition isFalsy :: "jsval \<Rightarrow> bool" where
  "isFalsy v = (\<not> truthy v \<and> v \<noteq> JNum 0)"

subsection \<open>String conversion\<close>

fun digit_char :: "nat \<Rightarrow> char" where
  "digit_char n = char_of (48 + n)"

fun show_nat :: "nat \<Rightarrow> string" where
  "show_nat n = (if n < 10 then [digit_char n] else show_nat (n div 10) @ [digit_char (n mod 10)])"

declare show_nat.simps [simp del]

definition show_int :: "int \<Rightarrow> string" where
  "show_int i = (if i < 0 then CHR ''-'' # show_nat (nat (- i)) else show_nat (nat i))"

text \<open>JavaScript's \<^verbatim>\<open>ToString\<close>, as a template literal \<^verbatim>\<open>`${v}`\<close> applies it.\<close>

fun to_string :: "jsval \<Rightarrow> string" where
  "to_string Undefined = ''undefined''"
| "to_string Null = ''null''"
| "to_string (JBool b) = (if b then ''true'' else ''false'')"
| "to_string (JNum n) = show_int n"
| "to_string JNaN = ''NaN''"
| "to_string (JStr s) = s"
| "to_string (JObj s) = s"

text \<open>\<^verbatim>\<open>Array.prototype.join\<close> on strings already converted.\<close>

fun join_strings :: "string \<Rightarrow> string list \<Rightarrow> string" where
  "join_strings sep [] = []"
| "join_strings sep [s] = s"
| "join_strings sep (s # t # ss) = s @ sep @ join_strings sep (t # ss)"

subsection \<open>The aggregation rule\<close>

text \<open>
  \<^verbatim>\<open>
  function arrayValueReducer( prev, cur ) {
      if ( isFalsy( cur ) ) { return prev; }
      else if ( isFalsy( prev ) ) { return cur; }
      else { return `${prev} ${cur}`; }
  }
  \<close>
\<close>

definition arrayValueReducer :: "jsval \<Rightarrow> jsval \<Rightarrow> jsval" where
  "arrayValueReducer prev cur =
     (if isFalsy cur then prev
      else if isFalsy prev then cur
      else JStr (to_string prev @ '' '' @ to_string cur))"

text \<open>\<^verbatim>\<open>values.reduce( arrayValueReducer, '' )\<close>: a left fold from the empty string.\<close>

definition reduce_values :: "jsval list \<Rightarrow> jsval" where
  "reduce_values vs = foldl arrayValueReducer (JStr []) vs"

section \<open>The DOM\<close>

text \<open>
  The part of the browser's DOM the file touches, as a tree: an element with its
  namespace, tag name, attributes (keyed by namespace and name), inline style declaration
  and child nodes, or a text node with its data. Which CSS values parse is not modelled:
  every style value is stored as its string.
\<close>

datatype dom =
    Element (el_ns: string) (el_tag: string)
            (el_attrs: "((string option \<times> string) \<times> string) list")
            (el_style: "(string \<times> string) list")
            (childNodes: "dom list")
  | TextNode string

text \<open>
  The failures of the file: the three \<^verbatim>\<open>CKEditorError\<close>s it throws
  (\<^verbatim>\<open>ui-template-wrong-syntax\<close>, \<^verbatim>\<open>ui-template-wrong-node\<close>,
  \<^verbatim>\<open>ui-template-extend-children-mismatch\<close>), the \<^verbatim>\<open>TypeError\<close> JavaScript raises
  when a property of \<^verbatim>\<open>undefined\<close> or \<^verbatim>\<open>null\<close> is read or a value that is no function is
  called, and the \<^verbatim>\<open>DOMException\<close> of the browser (\<^verbatim>\<open>InvalidCharacterError\<close> and
  \<^verbatim>\<open>NamespaceError\<close> for a name it does not accept, \<^verbatim>\<open>HierarchyRequestError\<close> for a child
  given to a text node).
\<close>

datatype error =
    InvalidDefinition
  | MissingTarget
  | ChildCountMismatch
  | TypeError
  | DOMException

text \<open>
  What the browser decides and the file does not: which namespace and qualified name
  \<^verbatim>\<open>document.createElementNS\<close> accepts, which namespace and qualified name
  \<^verbatim>\<open>setAttributeNS\<close> accepts, and the elements of which namespaces have a \<^verbatim>\<open>style\<close>
  (those of HTML and SVG have, an element of an unknown namespace has not).
\<close>

record browser =
  createElementNS_accepts :: "string \<Rightarrow> string \<Rightarrow> bool"
  setAttributeNS_accepts :: "string option \<Rightarrow> string \<Rightarrow> bool"
  has_style :: "string \<Rightarrow> bool"

text \<open>\<^verbatim>\<open>document.createElementNS( namespace, name )\<close>\<close>

definition createElementNS :: "browser \<Rightarrow> string \<Rightarrow> string \<Rightarrow> error + dom" where
  "createElementNS br namespace name =
     (if createElementNS_accepts br namespace name then Inr (Element namespace name [] [] [])
      else Inl DOMException)"

definition createTextNode :: "string \<Rightarrow> dom" where
  "createTextNode s = TextNode s"

text \<open>\<^verbatim>\<open>node.textContent = s\<close>: a text node takes the string as its data, an element has
  its children replaced by one text node (by none when the string is empty).\<close>

fun set_textContent :: "string \<Rightarrow> dom \<Rightarrow> dom" where
  "set_textContent s (TextNode old) = TextNode s"
| "set_textContent s (Element n t as st cs) = Element n t as st (if s = [] then [] else [TextNode s])"

text \<open>
  \<^verbatim>\<open>el.setAttributeNS( ns, name, value )\<close> and \<^verbatim>\<open>el.removeAttributeNS( ns, name )\<close>; a text
  node has neither method. An attribute is kept under its namespace and local name:
  \<^verbatim>\<open>setAttributeNS\<close> takes a qualified name, whose local name is what follows the colon if
  it has one, and \<^verbatim>\<open>removeAttributeNS\<close> takes a local name.
\<close>

definition local_name :: "string \<Rightarrow> string" where
  "local_name qualifiedName =
     (case dropWhile (\<lambda>c. c \<noteq> CHR '':'') qualifiedName of
        [] \<Rightarrow> qualifiedName
      | colon # rest \<Rightarrow> rest)"

fun setAttributeNS ::
  "browser \<Rightarrow> string option \<Rightarrow> string \<Rightarrow> jsval \<Rightarrow> dom \<Rightarrow> error + dom" where
  "setAttributeNS br namespace name v (Element n t as st cs) =
     (if setAttributeNS_accepts br namespace name
      then Inr (Element n t (AList.update (namespace, local_name name) (to_string v) as) st cs)
      else Inl DOMException)"
| "setAttributeNS br namespace name v (TextNode s) = Inl TypeError"

fun removeAttributeNS :: "string option \<Rightarrow> string \<Rightarrow> dom \<Rightarrow> error + dom" where
  "removeAttributeNS namespace name (Element n t as st cs) =
     Inr (Element n t (AList.delete (namespace, name) as) st cs)"
| "removeAttributeNS namespace name (TextNode s) = Inl TypeError"

text \<open>\<^verbatim>\<open>el.style[ name ] = value\<close>: \<^verbatim>\<open>null\<close> and the empty string remove the property;
  a text node has no \<^verbatim>\<open>style\<close>, nor has an element of a namespace without one.\<close>

fun set_style :: "browser \<Rightarrow> string \<Rightarrow> jsval \<Rightarrow> dom \<Rightarrow> error + dom" where
  "set_style br name v (Element n t as st cs) =
     (if has_style br n
      then Inr (Element n t as
                  (if v = Null \<or> v = JStr [] then AList.delete name st
                   else AList.update name (to_string v) st) cs)
      else Inl TypeError)"
| "set_style br name v (TextNode s) = Inl TypeError"

section \<open>DOM updaters\<close>

text \<open>The object with a \<^verbatim>\<open>set\<close> and a \<^verbatim>\<open>remove\<close> function that a binding writes through.
  In the source both close over the node; here the node is their last argument.\<close>

record updater =
  upd_set :: "jsval \<Rightarrow> dom \<Rightarrow> error + dom"
  upd_remove :: "dom \<Rightarrow> error + dom"

text \<open>\<^verbatim>\<open>textContent\<close> is a nullable string: \<^verbatim>\<open>null\<close> and \<^verbatim>\<open>undefined\<close> assign the empty
  string.\<close>

definition getTextUpdater :: updater where
  "getTextUpdater =
     \<lparr> upd_set = (\<lambda>v node. Inr (set_textContent
                      (if v = Null \<or> v = Undefined then [] else to_string v) node)),
       upd_remove = (\<lambda>node. Inr (set_textContent [] node)) \<rparr>"

definition getAttributeUpdater :: "browser \<Rightarrow> string \<Rightarrow> string option \<Rightarrow> updater" where
  "getAttributeUpdater br attrName namespace =
     \<lparr> upd_set = (\<lambda>v el. setAttributeNS br namespace attrName v el),
       upd_remove = (\<lambda>el. removeAttributeNS namespace attrName el) \<rparr>"

definition getStyleUpdater :: "browser \<Rightarrow> string \<Rightarrow> updater" where
  "getStyleUpdater br styleName =
     \<lparr> upd_set = (\<lambda>v el. set_style br styleName v el),
       upd_remove = (\<lambda>el. set_style br styleName Null el) \<rparr>"

section \<open>Bindings\<close>

text \<open>
  The first argument of \<^verbatim>\<open>Template.bind( ... ).to( ... )\<close>: an attribute or event name,
  or a function (by reference).
\<close>

datatype name_or_function = Name string | Function nat

text \<open>
  The observables, by reference: \<open>obs r k\<close> is \<^verbatim>\<open>observable[ k ]\<close> of the observable
  \<open>r\<close>, \<^verbatim>\<open>undefined\<close> where it has no such attribute.
\<close>

type_synonym observables = "nat \<Rightarrow> name_or_function \<Rightarrow> jsval"

text \<open>
  \<^verbatim>\<open>TemplateToBinding\<close> and \<^verbatim>\<open>TemplateIfBinding\<close>, the two subclasses of
  \<^verbatim>\<open>TemplateBinding\<close>, with the fields \<^verbatim>\<open>Object.assign( this, def )\<close> gives them.
  Observable and emitter are references; \<open>callback = None\<close> is a binding made without
  one, \<open>valueIfTrue = Undefined\<close> one made without that argument. A callback is a pure,
  total function of the value and the node.
\<close>

datatype binding =
    TemplateToBinding (observable: nat) (emitter: nat)
                      (eventNameOrFunction: name_or_function)
                      (attribute: name_or_function)
                      (callback: "(jsval \<Rightarrow> dom \<Rightarrow> jsval) option")
  | TemplateIfBinding (observable: nat) (emitter: nat)
                      (attribute: name_or_function)
                      (valueIfTrue: jsval)
                      (callback: "(jsval \<Rightarrow> dom \<Rightarrow> jsval) option")

text \<open>\<^verbatim>\<open>Template.bind( observable, emitter ).to( x, callback )\<close> and \<^verbatim>\<open>.if( ... )\<close>.\<close>

definition bind_to ::
  "nat \<Rightarrow> nat \<Rightarrow> name_or_function \<Rightarrow> (jsval \<Rightarrow> dom \<Rightarrow> jsval) option \<Rightarrow> binding" where
  "bind_to obs em eventNameOrFunctionOrAttribute cb =
     TemplateToBinding obs em eventNameOrFunctionOrAttribute eventNameOrFunctionOrAttribute cb"

definition bind_if ::
  "nat \<Rightarrow> nat \<Rightarrow> name_or_function \<Rightarrow> jsval \<Rightarrow> (jsval \<Rightarrow> dom \<Rightarrow> jsval) option \<Rightarrow> binding" where
  "bind_if obs em attr vit cb = TemplateIfBinding obs em attr vit cb"

text \<open>
  \<^verbatim>\<open>
  getValue( domNode ) {                                   // TemplateBinding
      const value = this.observable[ this.attribute ];
      return this.callback ? this.callback( value, domNode ) : value;
  }
  \<close>
\<close>

definition TemplateBinding_getValue :: "observables \<Rightarrow> binding \<Rightarrow> dom \<Rightarrow> jsval" where
  "TemplateBinding_getValue obs b domNode =
     (let v = obs (observable b) (attribute b)
      in case callback b of Some f \<Rightarrow> f v domNode | None \<Rightarrow> v)"

text \<open>
  \<^verbatim>\<open>
  getValue( domNode ) {                                   // TemplateIfBinding
      const value = super.getValue( domNode );
      return isFalsy( value ) ? false : ( this.valueIfTrue || true );
  }
  \<close>
  \<open>getValue\<close> dispatches on the class: \<^verbatim>\<open>TemplateToBinding\<close> inherits the method.
\<close>

definition TemplateIfBinding_getValue :: "observables \<Rightarrow> binding \<Rightarrow> dom \<Rightarrow> jsval" where
  "TemplateIfBinding_getValue obs b domNode =
     (let v = TemplateBinding_getValue obs b domNode
      in if isFalsy v then JBool False else js_or (valueIfTrue b) (JBool True))"

fun getValue :: "observables \<Rightarrow> binding \<Rightarrow> dom \<Rightarrow> jsval" where
  "getValue obs (TemplateToBinding ob em ev a cb) domNode =
     TemplateBinding_getValue obs (TemplateToBinding ob em ev a cb) domNode"
| "getValue obs (TemplateIfBinding ob em a vit cb) domNode =
     TemplateIfBinding_getValue obs (TemplateIfBinding ob em a vit cb) domNode"

section \<open>Value schemas\<close>

text \<open>
  What a template definition holds where a value is expected: a literal, a binding, an
  array of such, or an object literal (the \<^verbatim>\<open>{ ns, value }\<close> wrapper of a namespaced
  attribute, the object of a \<^verbatim>\<open>style\<close> attribute). A value schema is an array of items.
\<close>

datatype item =
    Lit jsval
  | Bnd binding
  | Arr "item list"
  | Obj "(string \<times> item) list"

text \<open>\<^verbatim>\<open>x instanceof TemplateBinding\<close> and \<^verbatim>\<open>x instanceof TemplateIfBinding\<close>.\<close>

fun instanceof_TemplateBinding :: "item \<Rightarrow> bool" where
  "instanceof_TemplateBinding (Bnd b) = True"
| "instanceof_TemplateBinding x = False"

fun instanceof_TemplateIfBinding :: "item \<Rightarrow> bool" where
  "instanceof_TemplateIfBinding (Bnd (TemplateIfBinding ob em a vit cb)) = True"
| "instanceof_TemplateIfBinding x = False"

text \<open>An item that is no binding, as a value: arrays and objects are truthy and convert
  to a string as \<^verbatim>\<open>Array.prototype.toString\<close> and \<^verbatim>\<open>Object.prototype.toString\<close> do.\<close>

fun item_value :: "item \<Rightarrow> jsval" where
  "item_value (Lit v) = v"
| "item_value (Bnd b) = JObj ''[object Object]''"
| "item_value (Arr xs) =
     JObj (join_strings '',''
            (map (\<lambda>x. let v = item_value x
                      in if v = Undefined \<or> v = Null then [] else to_string v) xs))"
| "item_value (Obj kvs) = JObj ''[object Object]''"

definition item_truthy :: "item \<Rightarrow> bool" where
  "item_truthy x = truthy (item_value x)"

definition item_isFalsy :: "item \<Rightarrow> bool" where
  "item_isFalsy x = isFalsy (item_value x)"

text \<open>
  \<open>get_prop x k\<close> is \<^verbatim>\<open>x[ k ]\<close> for the keys \<^verbatim>\<open>ns\<close> and \<^verbatim>\<open>value\<close> the file reads from an
  item: only an object literal can have them. (It is never read from \<^verbatim>\<open>null\<close> or
  \<^verbatim>\<open>undefined\<close>: every such read is guarded by a truthiness test.)
\<close>

definition get_prop :: "item \<Rightarrow> string \<Rightarrow> item" where
  "get_prop x k =
     (case x of
        Obj kvs \<Rightarrow> (case map_of kvs k of Some v \<Rightarrow> v | None \<Rightarrow> Lit Undefined)
      | _ \<Rightarrow> Lit Undefined)"

text \<open>The truthiness of \<^verbatim>\<open>item.observable\<close>: a binding holds a reference to its
  observable; an object literal may have a property of that name.\<close>

definition has_observable :: "item \<Rightarrow> bool" where
  "has_observable x =
     (case x of
        Bnd b \<Rightarrow> True
      | Obj kvs \<Rightarrow> item_truthy (get_prop x ''observable'')
      | _ \<Rightarrow> False)"

lemma size_map_of_item:
  "map_of kvs k = Some v \<Longrightarrow> size (v::item) < Suc (size_list (size_prod (\<lambda>_. 0) size) kvs)"
  by (induction kvs) (auto split: if_splits)

lemma size_member_item:
  "x \<in> set xs \<Longrightarrow> size (x::item) < Suc (size_list size xs)"
  by (induction xs) auto

text \<open>
  \<^verbatim>\<open>
  function hasTemplateBinding( valueSchema ) {
      if ( !valueSchema ) { return false; }
      if ( valueSchema.value ) { valueSchema = valueSchema.value; }
      if ( Array.isArray( valueSchema ) ) { return valueSchema.some( hasTemplateBinding ); }
      else if ( valueSchema instanceof TemplateBinding ) { return true; }
      return false;
  }
  \<close>
\<close>

function hasTemplateBinding :: "item \<Rightarrow> bool" where
  "hasTemplateBinding valueSchema =
     (if \<not> item_truthy valueSchema then False
      else
        (case (if item_truthy (get_prop valueSchema ''value'')
               then get_prop valueSchema ''value'' else valueSchema) of
           Arr xs \<Rightarrow> (\<exists>x \<in> set xs. hasTemplateBinding x)
         | Bnd b \<Rightarrow> True
         | _ \<Rightarrow> False))"
  by pat_completeness auto
termination
proof (relation "measure size", goal_cases)
  case 1
  show ?case by simp
next
  case (2 valueSchema xs x)
  show ?case
  proof (cases valueSchema)
    case (Obj kvs)
    with 2 show ?thesis
      by (auto simp: get_prop_def split: option.splits if_splits
               dest!: size_map_of_item dest: size_member_item)
  qed (use 2 in \<open>auto simp: get_prop_def split: if_splits dest: size_member_item\<close>)
qed

declare hasTemplateBinding.simps [simp del]

text \<open>
  \<^verbatim>\<open>
  function getValueSchemaValue( valueSchema, domNode ) {
      return valueSchema.map( schemaItem => {
          if ( schemaItem instanceof TemplateBinding ) { return schemaItem.getValue( domNode ); }
          return schemaItem;
      } );
  }
  \<close>
\<close>

definition getValueSchemaValue :: "observables \<Rightarrow> item list \<Rightarrow> dom \<Rightarrow> jsval list" where
  "getValueSchemaValue obs valueSchema domNode =
     map (\<lambda>schemaItem.
            case schemaItem of
              Bnd b \<Rightarrow> getValue obs b domNode
            | _ \<Rightarrow> item_value schemaItem) valueSchema"

text \<open>
  \<^verbatim>\<open>
  function syncValueSchemaValue( valueSchema, domNode, domUpdater ) {
      let value = getValueSchemaValue( valueSchema, domNode );
      if ( valueSchema.length == 1 && valueSchema[ 0 ] instanceof TemplateIfBinding ) {
          value = value[ 0 ];
      } else {
          value = value.reduce( arrayValueReducer, '' );
      }
      if ( isFalsy( value ) ) { domUpdater.remove(); } else { domUpdater.set( value ); }
  }
  \<close>
  \<open>schema_value\<close> is the value the function settles on, before it writes.
\<close>

definition schema_value :: "observables \<Rightarrow> item list \<Rightarrow> dom \<Rightarrow> jsval" where
  "schema_value obs valueSchema domNode =
     (let v = getValueSchemaValue obs valueSchema domNode
      in if length valueSchema = 1 \<and> instanceof_TemplateIfBinding (valueSchema ! 0)
         then v ! 0
         else reduce_values v)"

definition syncValueSchemaValue ::
  "observables \<Rightarrow> item list \<Rightarrow> dom \<Rightarrow> updater \<Rightarrow> error + dom" where
  "syncValueSchemaValue obs valueSchema domNode domUpdater =
     (let v = schema_value obs valueSchema domNode
      in if isFalsy v then upd_remove domUpdater domNode
         else upd_set domUpdater v domNode)"

section \<open>Listeners\<close>

text \<open>
  Where a node sits below the node a call started from: the steps from that node down.
  \<open>ChildAt i\<close> is \<^verbatim>\<open>childNodes[ i ]\<close>; \<open>Orphan i\<close> is the node that applying a template
  made for a missing \<^verbatim>\<open>childNodes[ i ]\<close> and attached nowhere.
\<close>

datatype step = ChildAt nat | Orphan nat

text \<open>
  What the file asks of its collaborators, in the order it asks:
  \<^item> \<open>ListenToObservable p emitter observable attribute valueSchema updater\<close> is
    \<^verbatim>\<open>emitter.listenTo( observable, 'change:' + attribute, () => syncValueSchemaValue( valueSchema, node, updater ) )\<close>
    for the node at \<open>p\<close>;
  \<^item> \<open>ListenToDom p emitter domEvtName domSelector binding\<close> is
    \<^verbatim>\<open>emitter.listenTo( el, domEvtName, ( evt, domEvt ) => ... )\<close> of
    \<^verbatim>\<open>activateDomEventListener\<close> for the element at \<open>p\<close>;
  \<^item> \<open>SetParent p views\<close> is \<^verbatim>\<open>viewCollection.setParent( element )\<close>.
\<close>

datatype view = View (element: "dom option")

datatype effect =
    ListenToObservable "step list" nat nat name_or_function "item list" updater
  | ListenToDom "step list" nat string "string option" binding
  | SetParent "step list" "view list"

fun below :: "step \<Rightarrow> effect \<Rightarrow> effect" where
  "below s (ListenToObservable p em ob a vs u) = ListenToObservable (s # p) em ob a vs u"
| "below s (ListenToDom p em n sel b) = ListenToDom (s # p) em n sel b"
| "below s (SetParent p vs) = SetParent (s # p) vs"

text \<open>
  \<^verbatim>\<open>
  activateAttributeListener( valueSchema, node, updater ) {
      this.emitter.listenTo( this.observable, 'change:' + this.attribute, () => {
          syncValueSchemaValue( valueSchema, node, updater );
      } );
  }
  \<close>
  and what the listener does when the observable fires the change, on the observables
  and the node as they are then.
\<close>

definition activateAttributeListener :: "binding \<Rightarrow> item list \<Rightarrow> updater \<Rightarrow> effect" where
  "activateAttributeListener b valueSchema upd =
     ListenToObservable [] (emitter b) (observable b) (attribute b) valueSchema upd"

fun attribute_changed :: "observables \<Rightarrow> effect \<Rightarrow> dom \<Rightarrow> error + dom" where
  "attribute_changed obs (ListenToObservable p em ob a valueSchema upd) node =
     syncValueSchemaValue obs valueSchema node upd"
| "attribute_changed obs e node = Inr node"

text \<open>
  \<^verbatim>\<open>
  _bindToObservable( valueSchema ) {
      valueSchema
          .filter( item => !isFalsy( item ) )
          .filter( item => item.observable )
          .forEach( templateBinding => templateBinding.activateAttributeListener( ...arguments ) );
      syncValueSchemaValue( ...arguments );
  }
  \<close>
  An item that passes both filters and is no binding is an object literal with an
  \<^verbatim>\<open>observable\<close> property: it has no \<^verbatim>\<open>activateAttributeListener\<close> to call.
\<close>

fun activate_all :: "item list \<Rightarrow> item list \<Rightarrow> updater \<Rightarrow> error + effect list" where
  "activate_all [] valueSchema upd = Inr []"
| "activate_all (Bnd b # rest) valueSchema upd =
     (case activate_all rest valueSchema upd of
        Inl e \<Rightarrow> Inl e
      | Inr es \<Rightarrow> Inr (activateAttributeListener b valueSchema upd # es))"
| "activate_all (x # rest) valueSchema upd = Inl TypeError"

definition bindToObservable ::
  "observables \<Rightarrow> item list \<Rightarrow> dom \<Rightarrow> updater \<Rightarrow> error + (dom \<times> effect list)" where
  "bindToObservable obs valueSchema node domUpdater =
     (case activate_all
             (filter has_observable (filter (\<lambda>x. \<not> item_isFalsy x) valueSchema))
             valueSchema domUpdater of
        Inl e \<Rightarrow> Inl e
      | Inr es \<Rightarrow>
          (case syncValueSchemaValue obs valueSchema node domUpdater of
             Inl e \<Rightarrow> Inl e
           | Inr node' \<Rightarrow> Inr (node', es)))"

text \<open>
  \<^verbatim>\<open>
  activateDomEventListener( el, domEvtName, domSelector ) {        // TemplateToBinding
      this.emitter.listenTo( el, domEvtName, ( evt, domEvt ) => {
          if ( !domSelector || domEvt.target.matches( domSelector ) ) {
              if ( typeof this.eventNameOrFunction == 'function' ) {
                  this.eventNameOrFunction( domEvt );
              } else {
                  this.observable.fire( this.eventNameOrFunction, domEvt );
              }
          }
      } );
  }
  \<close>
  Only \<^verbatim>\<open>TemplateToBinding\<close> has the method. A native event is its target and a payload;
  \<open>matches\<close> is the browser's \<^verbatim>\<open>Element.matches\<close>. What a listener does is the list of
  calls it makes.
\<close>

record dom_event =
  evt_target :: dom
  evt_payload :: nat

datatype action =
    CallFunction nat dom_event
  | FireEvent nat string dom_event

fun activateDomEventListener :: "binding \<Rightarrow> string \<Rightarrow> string option \<Rightarrow> error + effect" where
  "activateDomEventListener (TemplateToBinding ob em ev a cb) domEvtName domSelector =
     Inr (ListenToDom [] em domEvtName domSelector (TemplateToBinding ob em ev a cb))"
| "activateDomEventListener (TemplateIfBinding ob em a vit cb) domEvtName domSelector =
     Inl TypeError"

fun dom_event_fired ::
  "(dom \<Rightarrow> string \<Rightarrow> bool) \<Rightarrow> binding \<Rightarrow> string option \<Rightarrow> dom_event \<Rightarrow> action list" where
  "dom_event_fired matches (TemplateToBinding ob em ev a cb) domSelector domEvt =
     (if (case domSelector of
            None \<Rightarrow> True
          | Some sel \<Rightarrow> sel = [] \<or> matches (evt_target domEvt) sel)
      then (case ev of
              Function f \<Rightarrow> [CallFunction f domEvt]
            | Name n \<Rightarrow> [FireEvent ob n domEvt])
      else [])"
| "dom_event_fired matches (TemplateIfBinding ob em a vit cb) domSelector domEvt = []"

fun dom_listener_fired ::
  "(dom \<Rightarrow> string \<Rightarrow> bool) \<Rightarrow> effect \<Rightarrow> dom_event \<Rightarrow> action list" where
  "dom_listener_fired matches (ListenToDom p em n domSelector b) domEvt =
     dom_event_fired matches b domSelector domEvt"
| "dom_listener_fired matches e domEvt = []"

text \<open>\<^verbatim>\<open>const [ domEvtName, domSelector ] = key.split( '@' );\<close>\<close>

definition split_key :: "string \<Rightarrow> string \<times> string option" where
  "split_key key =
     (takeWhile (\<lambda>c. c \<noteq> CHR ''@'') key,
      (case dropWhile (\<lambda>c. c \<noteq> CHR ''@'') key of
         [] \<Rightarrow> None
       | at # rest \<Rightarrow> Some (takeWhile (\<lambda>c. c \<noteq> CHR ''@'') rest)))"

section \<open>Templates\<close>

text \<open>
  A view is an object of the file's collaborator class \<^verbatim>\<open>View\<close>, of which the file uses
  the \<^verbatim>\<open>element\<close> (\<open>None\<close> when the view has no element, \<^verbatim>\<open>null\<close>); a view collection
  is iterated for its views and told its parent.

  \<open>Template\<close> is an instance of the class after \<^verbatim>\<open>normalize\<close>: \<^verbatim>\<open>tag\<close> and \<^verbatim>\<open>ns\<close> are
  values (\<^verbatim>\<open>undefined\<close> when absent); \<^verbatim>\<open>text\<close> is absent or an array of items;
  \<^verbatim>\<open>attributes\<close> and \<^verbatim>\<open>eventListeners\<close> are absent or objects whose every value is an
  array, with their keys in enumeration order; \<^verbatim>\<open>children\<close> is absent or the collection of
  child templates, views and view collections. \<^verbatim>\<open>normalize\<close> gives a definition without
  \<^verbatim>\<open>text\<close> a collection of children, and leaves a definition with \<^verbatim>\<open>text\<close> without one.
\<close>

datatype template =
    Template (tag: jsval) (ns: jsval)
             (text_schema: "item list option")
             (attributes: "(string \<times> item list) list option")
             (children: "child list option")
             (eventListeners: "(string \<times> item list) list option")
and child =
    ChildTemplate template
  | ChildView view
  | ChildViewCollection "view list"

definition xhtmlNs :: string where
  "xhtmlNs = ''http://www.w3.org/1999/xhtml''"

subsection \<open>More of the DOM\<close>

fun child_nodes :: "dom \<Rightarrow> dom list" where
  "child_nodes (Element n t as st cs) = cs"
| "child_nodes (TextNode s) = []"

text \<open>The children of a node after they were changed in place or appended to it one by
  one; a text node has none and is never given any.\<close>

fun with_childNodes :: "dom list \<Rightarrow> dom \<Rightarrow> dom" where
  "with_childNodes kids (Element n t as st cs) = Element n t as st kids"
| "with_childNodes kids (TextNode s) = TextNode s"

text \<open>\<^verbatim>\<open>el.appendChild( docFragment )\<close>: the nodes of the fragment go to the end of the
  element's children; a text node takes no child.\<close>

fun appendChild_fragment :: "dom list \<Rightarrow> dom \<Rightarrow> error + dom" where
  "appendChild_fragment frag (Element n t as st cs) = Inr (Element n t as st (cs @ frag))"
| "appendChild_fragment frag (TextNode s) = Inl DOMException"

text \<open>\<^verbatim>\<open>container.appendChild( view.element )\<close>, for one view and for the views of a
  collection in turn: \<^verbatim>\<open>appendChild( null )\<close> is a \<^verbatim>\<open>TypeError\<close>.\<close>

fun append_views :: "view list \<Rightarrow> dom list \<Rightarrow> error + dom list" where
  "append_views [] container = Inr container"
| "append_views (View None # vs) container = Inl TypeError"
| "append_views (View (Some el) # vs) container = append_views vs (container @ [el])"

subsection \<open>Text\<close>

text \<open>\<^verbatim>\<open>items.join( sep )\<close>: \<^verbatim>\<open>null\<close> and \<^verbatim>\<open>undefined\<close> entries give the empty string.\<close>

definition array_join :: "string \<Rightarrow> item list \<Rightarrow> string" where
  "array_join sep xs =
     join_strings sep
       (map (\<lambda>x. let v = item_value x
                 in if v = Undefined \<or> v = Null then [] else to_string v) xs)"

text \<open>
  \<^verbatim>\<open>
  _renderText( textNode = document.createTextNode( '' ) ) {
      if ( hasTemplateBinding( this.text ) ) {
          this._bindToObservable( this.text, textNode, getTextUpdater( textNode ) );
      } else {
          textNode.textContent = this.text.join( '' );
      }
      return textNode;
  }
  \<close>
\<close>

definition renderText ::
  "observables \<Rightarrow> item list \<Rightarrow> dom option \<Rightarrow> error + (dom \<times> effect list)" where
  "renderText obs txt applyNode =
     (let textNode = (case applyNode of None \<Rightarrow> createTextNode [] | Some n \<Rightarrow> n)
      in if hasTemplateBinding (Arr txt)
         then bindToObservable obs txt textNode getTextUpdater
         else Inr (set_textContent (array_join [] txt) textNode, []))"

subsection \<open>Attributes\<close>

text \<open>lodash's \<^verbatim>\<open>isObject\<close>: an object or a function, not \<^verbatim>\<open>null\<close>.\<close>

fun isObject :: "item \<Rightarrow> bool" where
  "isObject (Lit (JObj s)) = True"
| "isObject (Lit v) = False"
| "isObject x = True"

text \<open>\<^verbatim>\<open>attrValue[ 0 ]\<close>\<close>

definition first_item :: "item list \<Rightarrow> item" where
  "first_item attrValue = (case attrValue of [] \<Rightarrow> Lit Undefined | x # rest \<Rightarrow> x)"

text \<open>\<^verbatim>\<open>attrNs = isObject( attrValue[ 0 ] ) && attrValue[ 0 ].ns ? attrValue[ 0 ].ns : null;\<close>\<close>

definition attrNs :: "item list \<Rightarrow> item" where
  "attrNs attrValue =
     (if isObject (first_item attrValue) \<and> item_truthy (get_prop (first_item attrValue) ''ns'')
      then get_prop (first_item attrValue) ''ns''
      else Lit Null)"

text \<open>The namespace argument of \<^verbatim>\<open>setAttributeNS\<close>: \<^verbatim>\<open>null\<close> is no namespace.\<close>

definition namespace_of :: "item \<Rightarrow> string option" where
  "namespace_of x = (if x = Lit Null then None else Some (to_string (item_value x)))"

text \<open>
  The static branch of \<^verbatim>\<open>_renderAttributes\<close>:
  \<^verbatim>\<open>
  attrValue = attrValue
      .map( v => v ? ( v.value || v ) : v )
      .reduce( ( p, n ) => p.concat( n ), [] )
      .reduce( arrayValueReducer, '' );
  \<close>
\<close>

definition static_attribute_value :: "item list \<Rightarrow> jsval" where
  "static_attribute_value attrValue =
     reduce_values
       (map item_value
         (concat
           (map (\<lambda>n. case n of Arr xs \<Rightarrow> xs | _ \<Rightarrow> [n])
             (map (\<lambda>v. if item_truthy v
                        then (if item_truthy (get_prop v ''value'') then get_prop v ''value'' else v)
                        else v) attrValue))))"

text \<open>The keys \<^verbatim>\<open>for ( let styleName in styles )\<close> enumerates, with their values: the
  properties of an object literal, the indices of an array, nothing of a primitive. (A
  binding is never enumerated: \<^verbatim>\<open>_renderAttributes\<close> comes here only when
  \<^verbatim>\<open>hasTemplateBinding( attrValue )\<close> is false.)\<close>

definition enumerate_item :: "item \<Rightarrow> (string \<times> item) list" where
  "enumerate_item x =
     (case x of
        Obj kvs \<Rightarrow> kvs
      | Arr xs \<Rightarrow> zip (map show_nat [0 ..< length xs]) xs
      | _ \<Rightarrow> [])"

text \<open>
  \<^verbatim>\<open>
  _renderStyleAttribute( styles, el ) {
      for ( let styleName in styles ) {
          const styleValue = styles[ styleName ];
          if ( hasTemplateBinding( styleValue ) ) {
              this._bindToObservable( [ styleValue ], el, getStyleUpdater( el, styleName ) );
          } else {
              el.style[ styleName ] = styleValue;
          }
      }
  }
  \<close>
\<close>

fun renderStyles ::
  "browser \<Rightarrow> observables \<Rightarrow> (string \<times> item) list \<Rightarrow> dom \<Rightarrow> error + (dom \<times> effect list)"
where
  "renderStyles br obs [] el = Inr (el, [])"
| "renderStyles br obs ((styleName, styleValue) # rest) el =
     (case (if hasTemplateBinding styleValue
            then bindToObservable obs [styleValue] el (getStyleUpdater br styleName)
            else (case set_style br styleName (item_value styleValue) el of
                    Inl e \<Rightarrow> Inl e
                  | Inr el' \<Rightarrow> Inr (el', []))) of
        Inl e \<Rightarrow> Inl e
      | Inr (el', es) \<Rightarrow>
          (case renderStyles br obs rest el' of
             Inl e \<Rightarrow> Inl e
           | Inr (el'', es') \<Rightarrow> Inr (el'', es @ es')))"

definition renderStyleAttribute ::
  "browser \<Rightarrow> observables \<Rightarrow> item \<Rightarrow> dom \<Rightarrow> error + (dom \<times> effect list)" where
  "renderStyleAttribute br obs styles el = renderStyles br obs (enumerate_item styles) el"

text \<open>
  One round of the loop of \<^verbatim>\<open>_renderAttributes\<close>:
  \<^verbatim>\<open>
  attrValue = this.attributes[ attrName ];
  attrNs = isObject( attrValue[ 0 ] ) && attrValue[ 0 ].ns ? attrValue[ 0 ].ns : null;
  if ( hasTemplateBinding( attrValue ) ) {
      this._bindToObservable( attrNs ? attrValue[ 0 ].value : attrValue, el,
          getAttributeUpdater( el, attrName, attrNs ) );
  } else if ( attrName == 'style' && typeof attrValue[ 0 ] !== 'string' ) {
      this._renderStyleAttribute( attrValue[ 0 ], el );
  } else {
      attrValue = ...;
      if ( !isFalsy( attrValue ) ) { el.setAttributeNS( attrNs, attrName, attrValue ); }
  }
  \<close>
  \<^verbatim>\<open>_bindToObservable\<close> calls \<^verbatim>\<open>filter\<close> on its argument, which only an array has.
\<close>

definition renderAttribute ::
  "browser \<Rightarrow> observables \<Rightarrow> string \<Rightarrow> item list \<Rightarrow> dom \<Rightarrow> error + (dom \<times> effect list)"
where
  "renderAttribute br obs attrName attrValue el =
     (if hasTemplateBinding (Arr attrValue) then
        (if item_truthy (attrNs attrValue) then
           (case get_prop (first_item attrValue) ''value'' of
              Arr valueSchema \<Rightarrow>
                bindToObservable obs valueSchema el
                  (getAttributeUpdater br attrName (namespace_of (attrNs attrValue)))
            | _ \<Rightarrow> Inl TypeError)
         else bindToObservable obs attrValue el
                (getAttributeUpdater br attrName (namespace_of (attrNs attrValue))))
      else if attrName = ''style''
              \<and> (case first_item attrValue of Lit (JStr s) \<Rightarrow> False | _ \<Rightarrow> True) then
        renderStyleAttribute br obs (first_item attrValue) el
      else
        (if \<not> isFalsy (static_attribute_value attrValue) then
           (case setAttributeNS br (namespace_of (attrNs attrValue)) attrName
                   (static_attribute_value attrValue) el of
              Inl e \<Rightarrow> Inl e
            | Inr el' \<Rightarrow> Inr (el', []))
         else Inr (el, [])))"

fun renderAttributes_loop ::
  "browser \<Rightarrow> observables \<Rightarrow> (string \<times> item list) list \<Rightarrow> dom
     \<Rightarrow> error + (dom \<times> effect list)" where
  "renderAttributes_loop br obs [] el = Inr (el, [])"
| "renderAttributes_loop br obs ((attrName, attrValue) # rest) el =
     (case renderAttribute br obs attrName attrValue el of
        Inl e \<Rightarrow> Inl e
      | Inr (el', es) \<Rightarrow>
          (case renderAttributes_loop br obs rest el' of
             Inl e \<Rightarrow> Inl e
           | Inr (el'', es') \<Rightarrow> Inr (el'', es @ es')))"

text \<open>\<^verbatim>\<open>_renderAttributes( el )\<close>: \<^verbatim>\<open>if ( !this.attributes ) { return; }\<close>, then the loop.\<close>

definition renderAttributes ::
  "browser \<Rightarrow> observables \<Rightarrow> (string \<times> item list) list option \<Rightarrow> dom
     \<Rightarrow> error + (dom \<times> effect list)" where
  "renderAttributes br obs attrs el =
     (case attrs of None \<Rightarrow> Inr (el, []) | Some as \<Rightarrow> renderAttributes_loop br obs as el)"

subsection \<open>Event listeners\<close>

text \<open>
  \<^verbatim>\<open>
  _setUpListeners( el ) {
      if ( !this.eventListeners ) { return; }
      for ( let key in this.eventListeners ) {
          const [ domEvtName, domSelector ] = key.split( '@' );
          this.eventListeners[ key ].forEach( schemaItem => {
              schemaItem.activateDomEventListener( el, domEvtName, domSelector );
          } );
      }
  }
  \<close>
  An entry that is no \<^verbatim>\<open>TemplateToBinding\<close> has no \<^verbatim>\<open>activateDomEventListener\<close>.
\<close>

fun activate_listeners :: "item list \<Rightarrow> string \<Rightarrow> string option \<Rightarrow> error + effect list" where
  "activate_listeners [] domEvtName domSelector = Inr []"
| "activate_listeners (Bnd b # rest) domEvtName domSelector =
     (case activateDomEventListener b domEvtName domSelector of
        Inl e \<Rightarrow> Inl e
      | Inr eff \<Rightarrow>
          (case activate_listeners rest domEvtName domSelector of
             Inl e \<Rightarrow> Inl e
           | Inr es \<Rightarrow> Inr (eff # es)))"
| "activate_listeners (x # rest) domEvtName domSelector = Inl TypeError"

fun setUpListeners_loop :: "(string \<times> item list) list \<Rightarrow> error + effect list" where
  "setUpListeners_loop [] = Inr []"
| "setUpListeners_loop ((key, schema) # rest) =
     (case activate_listeners schema (fst (split_key key)) (snd (split_key key)) of
        Inl e \<Rightarrow> Inl e
      | Inr es \<Rightarrow>
          (case setUpListeners_loop rest of
             Inl e \<Rightarrow> Inl e
           | Inr es' \<Rightarrow> Inr (es @ es')))"

definition setUpListeners :: "(string \<times> item list) list option \<Rightarrow> error + effect list" where
  "setUpListeners listeners =
     (case listeners of None \<Rightarrow> Inr [] | Some ls \<Rightarrow> setUpListeners_loop ls)"

subsection \<open>Nodes and children\<close>

text \<open>
  \<^verbatim>\<open>
  _renderNode( applyNode, intoFragment ) {
      let isInvalid;
      if ( applyNode ) { isInvalid = this.tag && this.text; }
      else { isInvalid = this.tag ? this.text : !this.text; }
      if ( isInvalid ) { throw new CKEditorError( 'ui-template-wrong-syntax: ...' ); }
      return this.text ? this._renderText( applyNode ) : this._renderElement( applyNode, intoFragment );
  }
  \<close>
\<close>

definition isInvalid :: "template \<Rightarrow> dom option \<Rightarrow> bool" where
  "isInvalid t applyNode =
     (case applyNode of
        Some n \<Rightarrow> truthy (tag t) \<and> text_schema t \<noteq> None
      | None \<Rightarrow> (if truthy (tag t) then text_schema t \<noteq> None else text_schema t = None))"

text \<open>
  \<^verbatim>\<open>
  _renderElement( applyElement, intoFragment ) {
      const el = applyElement || document.createElementNS( this.ns || xhtmlNs, this.tag );
      this._renderAttributes( el );
      if ( intoFragment ) {
          const docFragment = document.createDocumentFragment();
          this._renderElementChildren( el, docFragment );
          el.appendChild( docFragment );
      } else {
          this._renderElementChildren( el, el, !!applyElement );
      }
      this._setUpListeners( el );
      return el;
  }

  _renderElementChildren( element, container, shouldApply ) {
      let childIndex = 0;
      for ( let child of this.children ) {
          if ( isViewCollection( child ) ) {
              if ( !shouldApply ) {
                  child.setParent( element );
                  for ( let view of child ) { container.appendChild( view.element ); }
              }
          } else if ( isView( child ) ) {
              if ( !shouldApply ) { container.appendChild( child.element ); }
          } else {
              if ( shouldApply ) { child._renderNode( container.childNodes[ childIndex++ ] ); }
              else { container.appendChild( child.render() ); }
          }
      }
  }
  \<close>
  \<open>renderElementChildren\<close> is the loop from the child it has reached: \<open>container\<close> are
  the child nodes of the container as they are then, \<open>base\<close> the number of nodes the
  element has when the container is a fragment (they come before the fragment's in the
  end), \<open>childIndex\<close> the variable of the loop. A node changed in place is replaced in
  the list. The result of a call is the node and the listeners set up, outermost call
  first within a node and in the order of the calls.
\<close>

fun renderNode ::
  "browser \<Rightarrow> observables \<Rightarrow> template \<Rightarrow> dom option \<Rightarrow> bool \<Rightarrow> error + (dom \<times> effect list)"
and renderElement ::
  "browser \<Rightarrow> observables \<Rightarrow> template \<Rightarrow> dom option \<Rightarrow> bool \<Rightarrow> error + (dom \<times> effect list)"
and renderElementChildren ::
  "browser \<Rightarrow> observables \<Rightarrow> child list \<Rightarrow> dom list \<Rightarrow> nat \<Rightarrow> nat \<Rightarrow> bool
     \<Rightarrow> error + (dom list \<times> effect list)"
where
  "renderNode br obs (Template tg nsp txt attrs chs lst) applyNode intoFragment =
     (if isInvalid (Template tg nsp txt attrs chs lst) applyNode then Inl InvalidDefinition
      else (case txt of
              Some ts \<Rightarrow> renderText obs ts applyNode
            | None \<Rightarrow>
                renderElement br obs (Template tg nsp txt attrs chs lst) applyNode intoFragment))"
| "renderElement br obs (Template tg nsp txt attrs chs lst) applyElement intoFragment =
     (case (case applyElement of
              Some n \<Rightarrow> Inr n
            | None \<Rightarrow> createElementNS br (to_string (js_or nsp (JStr xhtmlNs))) (to_string tg)) of
        Inl e \<Rightarrow> Inl e
      | Inr el0 \<Rightarrow>
          (case renderAttributes br obs attrs el0 of
             Inl e \<Rightarrow> Inl e
           | Inr (el, es1) \<Rightarrow>
               (case chs of
                  None \<Rightarrow> Inl TypeError
                | Some cs \<Rightarrow>
                    (if intoFragment then
                       (case renderElementChildren br obs cs [] (length (child_nodes el)) 0 False of
                          Inl e \<Rightarrow> Inl e
                        | Inr (docFragment, es2) \<Rightarrow>
                            (case appendChild_fragment docFragment el of
                               Inl e \<Rightarrow> Inl e
                             | Inr el' \<Rightarrow>
                                 (case setUpListeners lst of
                                    Inl e \<Rightarrow> Inl e
                                  | Inr es3 \<Rightarrow> Inr (el', es1 @ es2 @ es3))))
                     else
                       (case renderElementChildren br obs cs (child_nodes el) 0 0
                               (applyElement \<noteq> None) of
                          Inl e \<Rightarrow> Inl e
                        | Inr (kids, es2) \<Rightarrow>
                            (case setUpListeners lst of
                               Inl e \<Rightarrow> Inl e
                             | Inr es3 \<Rightarrow> Inr (with_childNodes kids el, es1 @ es2 @ es3)))))))"
| "renderElementChildren br obs [] container base childIndex shouldApply = Inr (container, [])"
| "renderElementChildren br obs (ChildViewCollection vs # rest) container base childIndex
     shouldApply =
     (if shouldApply
      then renderElementChildren br obs rest container base childIndex shouldApply
      else (case append_views vs container of
              Inl e \<Rightarrow> Inl e
            | Inr container1 \<Rightarrow>
                (case renderElementChildren br obs rest container1 base childIndex shouldApply of
                   Inl e \<Rightarrow> Inl e
                 | Inr (container', es) \<Rightarrow> Inr (container', SetParent [] vs # es))))"
| "renderElementChildren br obs (ChildView v # rest) container base childIndex shouldApply =
     (if shouldApply
      then renderElementChildren br obs rest container base childIndex shouldApply
      else (case append_views [v] container of
              Inl e \<Rightarrow> Inl e
            | Inr container1 \<Rightarrow>
                renderElementChildren br obs rest container1 base childIndex shouldApply))"
| "renderElementChildren br obs (ChildTemplate c # rest) container base childIndex shouldApply =
     (if shouldApply then
        (case renderNode br obs c
                (if childIndex < length container then Some (container ! childIndex) else None)
                False of
           Inl e \<Rightarrow> Inl e
         | Inr (node, es) \<Rightarrow>
             (case renderElementChildren br obs rest
                     (if childIndex < length container then container[childIndex := node]
                      else container)
                     base (Suc childIndex) shouldApply of
                Inl e \<Rightarrow> Inl e
              | Inr (container', es') \<Rightarrow>
                  Inr (container',
                       map (below (if childIndex < length container then ChildAt childIndex
                                   else Orphan childIndex)) es @ es')))
      else
        (case renderNode br obs c None True of
           Inl e \<Rightarrow> Inl e
         | Inr (node, es) \<Rightarrow>
             (case renderElementChildren br obs rest (container @ [node]) base childIndex
                     shouldApply of
                Inl e \<Rightarrow> Inl e
              | Inr (container', es') \<Rightarrow>
                  Inr (container', map (below (ChildAt (base + length container))) es @ es'))))"

text \<open>\<^verbatim>\<open>render() { return this._renderNode( undefined, true ); }\<close>\<close>

definition render :: "browser \<Rightarrow> observables \<Rightarrow> template \<Rightarrow> error + (dom \<times> effect list)" where
  "render br obs t = renderNode br obs t None True"

text \<open>
  \<^verbatim>\<open>
  apply( node ) {
      if ( !node ) { throw new CKEditorError( 'ui-template-wrong-node: No DOM Node specified.' ); }
      return this._renderNode( node );
  }
  \<close>
\<close>

definition apply_template ::
  "browser \<Rightarrow> observables \<Rightarrow> template \<Rightarrow> dom option \<Rightarrow> error + (dom \<times> effect list)" where
  "apply_template br obs t node =
     (case node of
        None \<Rightarrow> Inl MissingTarget
      | Some n \<Rightarrow> renderNode br obs t (Some n) False)"

section \<open>Extending a template\<close>

text \<open>
  \<^verbatim>\<open>
  function extendObjectValueArray( obj, ext ) {
      for ( let a in ext ) {
          if ( obj[ a ] ) { obj[ a ].push( ...ext[ a ] ); }
          else { obj[ a ] = ext[ a ]; }
      }
  }
  \<close>
  \<open>obj\<close> is a plain object whose own properties all hold arrays. \<^verbatim>\<open>obj[ a ]\<close> is the array
  when \<open>obj\<close> has the key. When it has not, \<^verbatim>\<open>obj[ a ]\<close> is what \<open>obj\<close> inherits from
  \<^verbatim>\<open>Object.prototype\<close> under that name: \<^verbatim>\<open>undefined\<close> for most names, so that the key is
  added, after the keys the object has (a key that is an array index, which JavaScript
  enumerates before the others, is not told apart); a function or an object for the names of the members of
  \<^verbatim>\<open>Object.prototype\<close>, which is truthy and has no \<^verbatim>\<open>push\<close>, so that the call is a
  \<^verbatim>\<open>TypeError\<close>. Each key has an array of its own: \<^verbatim>\<open>push\<close> on the array of one key
  changes no other.
\<close>

definition object_prototype_keys :: "string list" where
  "object_prototype_keys =
     [''constructor'', ''toString'', ''toLocaleString'', ''valueOf'', ''hasOwnProperty'',
      ''isPrototypeOf'', ''propertyIsEnumerable'', ''__proto__'', ''__defineGetter__'',
      ''__defineSetter__'', ''__lookupGetter__'', ''__lookupSetter__'']"

fun extendObjectValueArray ::
  "(string \<times> 'a list) list \<Rightarrow> (string \<times> 'a list) list \<Rightarrow> error + (string \<times> 'a list) list"
where
  "extendObjectValueArray obj [] = Inr obj"
| "extendObjectValueArray obj ((a, v) # ext) =
     (case map_of obj a of
        Some old \<Rightarrow> extendObjectValueArray (AList.update a (old @ v) obj) ext
      | None \<Rightarrow>
          (if a \<in> set object_prototype_keys then Inl TypeError
           else extendObjectValueArray (AList.update a v obj) ext))"

text \<open>
  The first two steps of \<^verbatim>\<open>extendTemplate\<close>, for \<^verbatim>\<open>attributes\<close> and for
  \<^verbatim>\<open>eventListeners\<close> alike:
  \<^verbatim>\<open>
  if ( def.attributes ) {
      if ( !template.attributes ) { template.attributes = {}; }
      extendObjectValueArray( template.attributes, def.attributes );
  }
  \<close>
\<close>

definition extend_property ::
  "(string \<times> 'a list) list option \<Rightarrow> (string \<times> 'a list) list option
     \<Rightarrow> error + (string \<times> 'a list) list option" where
  "extend_property obj ext =
     (case ext of
        None \<Rightarrow> Inr obj
      | Some e \<Rightarrow>
          (case extendObjectValueArray (case obj of None \<Rightarrow> [] | Some kvs \<Rightarrow> kvs) e of
             Inl err \<Rightarrow> Inl err
           | Inr kvs' \<Rightarrow> Inr (Some kvs')))"

text \<open>
  \<^verbatim>\<open>
  function extendTemplate( template, def ) {
      if ( def.attributes ) {
          if ( !template.attributes ) { template.attributes = {}; }
          extendObjectValueArray( template.attributes, def.attributes );
      }
      if ( def.eventListeners ) {
          if ( !template.eventListeners ) { template.eventListeners = {}; }
          extendObjectValueArray( template.eventListeners, def.eventListeners );
      }
      if ( def.text ) { template.text.push( ...def.text ); }
      if ( def.children && def.children.length ) {
          if ( template.children.length != def.children.length ) {
              throw new CKEditorError( 'ui-template-extend-children-mismatch: ...' );
          }
          let childIndex = 0;
          for ( let childDef of def.children ) {
              extendTemplate( template.children.get( childIndex++ ), childDef );
          }
      }
  }
  \<close>
  The template is changed in place; the model returns the template as it is afterwards.
  \<open>def\<close> is the definition after \<^verbatim>\<open>normalize\<close>, itself of the shape of a template.

  Modelled from the spec: \<^verbatim>\<open>View\<close> and \<^verbatim>\<open>ViewCollection\<close> are not in the file. The spec gives
  a visual component its own node and nothing else, so a child that is a view or a view
  collection has none of \<^verbatim>\<open>attributes\<close>, \<^verbatim>\<open>eventListeners\<close>, \<^verbatim>\<open>text\<close> and \<^verbatim>\<open>children\<close>:
  as a definition it extends nothing; as a target it is given the attributes and listeners
  as a template without any would be, keeps them where nothing reads them, and has no
  \<^verbatim>\<open>text\<close> to push to and no \<^verbatim>\<open>children\<close> to count.
\<close>

fun extendTemplate :: "template \<Rightarrow> template \<Rightarrow> error + template"
and extendChildren :: "child list \<Rightarrow> child list \<Rightarrow> error + child list"
and extendChild :: "child \<Rightarrow> child \<Rightarrow> error + child"
where
  "extendTemplate (Template tg nsp txt attrs chs lst) def =
     (case extend_property attrs (attributes def) of
        Inl e \<Rightarrow> Inl e
      | Inr attrs' \<Rightarrow>
     (case extend_property lst (eventListeners def) of
        Inl e \<Rightarrow> Inl e
      | Inr lst' \<Rightarrow>
     (case (case text_schema def of
              None \<Rightarrow> Inr txt
            | Some dt \<Rightarrow>
                (case txt of None \<Rightarrow> Inl TypeError | Some tt \<Rightarrow> Inr (Some (tt @ dt)))) of
        Inl e \<Rightarrow> Inl e
      | Inr txt' \<Rightarrow>
          (case children def of
             Some (dc # dcs) \<Rightarrow>
               (case chs of
                  None \<Rightarrow> Inl TypeError
                | Some cs \<Rightarrow>
                    (if length cs \<noteq> length (dc # dcs) then Inl ChildCountMismatch
                     else (case extendChildren cs (dc # dcs) of
                             Inl e \<Rightarrow> Inl e
                           | Inr cs' \<Rightarrow> Inr (Template tg nsp txt' attrs' (Some cs') lst'))))
           | _ \<Rightarrow> Inr (Template tg nsp txt' attrs' chs lst')))))"
| "extendChildren (c # cs) (d # ds) =
     (case extendChild c d of
        Inl e \<Rightarrow> Inl e
      | Inr c' \<Rightarrow>
          (case extendChildren cs ds of
             Inl e \<Rightarrow> Inl e
           | Inr cs' \<Rightarrow> Inr (c' # cs')))"
| "extendChildren cs [] = Inr cs"
| "extendChildren [] (d # ds) = Inl TypeError"
| "extendChild (ChildTemplate t) (ChildTemplate d) =
     (case extendTemplate t d of Inl e \<Rightarrow> Inl e | Inr t' \<Rightarrow> Inr (ChildTemplate t'))"
| "extendChild c (ChildView v) = Inr c"
| "extendChild c (ChildViewCollection vs) = Inr c"
| "extendChild c (ChildTemplate d) =
     (case extend_property None (attributes d) of
        Inl e \<Rightarrow> Inl e
      | Inr attrs' \<Rightarrow>
     (case extend_property None (eventListeners d) of
        Inl e \<Rightarrow> Inl e
      | Inr lst' \<Rightarrow>
          (if text_schema d \<noteq> None then Inl TypeError
           else (case children d of
                   Some (dc # dcs) \<Rightarrow> Inl TypeError
                 | _ \<Rightarrow> Inr c))))"

text \<open>\<^verbatim>\<open>static extend( template, def ) { extendTemplate( template, normalize( clone( def ) ) ); }\<close>,
  for a definition already cloned and normalized.\<close>

definition extend :: "template \<Rightarrow> template \<Rightarrow> error + template" where
  "extend t def = extendTemplate t def"

section \<open>Vocabulary of the properties\<close>

text \<open>The bindings among the entries of a value schema, in order.\<close>

definition bindings_of :: "item list \<Rightarrow> binding list" where
  "bindings_of valueSchema = concat (map (\<lambda>x. case x of Bnd b \<Rightarrow> [b] | _ \<Rightarrow> []) valueSchema)"

text \<open>
  What the spec says of extending, in its words: arrays are concatenated key by key, a
  key that is new is added with its array as it is. An absent object has no keys.
\<close>

definition concat_keywise :: "('k \<rightharpoonup> 'a list) \<Rightarrow> ('k \<rightharpoonup> 'a list) \<Rightarrow> ('k \<rightharpoonup> 'a list)" where
  "concat_keywise obj ext k =
     (case ext k of
        None \<Rightarrow> obj k
      | Some v \<Rightarrow> (case obj k of None \<Rightarrow> Some v | Some old \<Rightarrow> Some (old @ v)))"

definition object_of :: "('k \<times> 'v) list option \<Rightarrow> ('k \<rightharpoonup> 'v)" where
  "object_of obj = (case obj of None \<Rightarrow> Map.empty | Some kvs \<Rightarrow> map_of kvs)"

text \<open>
  When \<^verbatim>\<open>extendObjectValueArray\<close> goes through: every key of the extension is a key of the
  object or is no name of a member of \<^verbatim>\<open>Object.prototype\<close>. An absent extension is not
  merged at all, an absent object is the empty one.
\<close>

definition can_merge ::
  "(string \<times> 'a list) list option \<Rightarrow> (string \<times> 'a list) list option \<Rightarrow> bool" where
  "can_merge obj ext =
     (case ext of
        None \<Rightarrow> True
      | Some e \<Rightarrow>
          list_all (\<lambda>(a, v). a \<in> fst ` set (case obj of None \<Rightarrow> [] | Some kvs \<Rightarrow> kvs)
                              \<or> a \<notin> set object_prototype_keys) e)"

text \<open>
  When \<^verbatim>\<open>extendTemplate\<close> goes through: the attributes and the event listeners of the
  definition can be merged; a definition with \<^verbatim>\<open>text\<close> meets a template with \<^verbatim>\<open>text\<close>; a
  definition with children meets a template with as many, and each child definition can
  extend the child at its position.
\<close>

fun can_extend :: "template \<Rightarrow> template \<Rightarrow> bool"
and can_extend_children :: "child list \<Rightarrow> child list \<Rightarrow> bool"
and can_extend_child :: "child \<Rightarrow> child \<Rightarrow> bool"
where
  "can_extend (Template tg nsp txt attrs chs lst) def =
     (can_merge attrs (attributes def) \<and> can_merge lst (eventListeners def)
      \<and> (text_schema def = None \<or> txt \<noteq> None)
      \<and> (case children def of
            Some (dc # dcs) \<Rightarrow>
              (case chs of
                 None \<Rightarrow> False
               | Some cs \<Rightarrow> length cs = length (dc # dcs) \<and> can_extend_children cs (dc # dcs))
          | _ \<Rightarrow> True))"
| "can_extend_children (c # cs) (d # ds) = (can_extend_child c d \<and> can_extend_children cs ds)"
| "can_extend_children cs [] = True"
| "can_extend_children [] (d # ds) = False"
| "can_extend_child (ChildTemplate t) (ChildTemplate d) = can_extend t d"
| "can_extend_child c (ChildView v) = True"
| "can_extend_child c (ChildViewCollection vs) = True"
| "can_extend_child c (ChildTemplate d) =
     (can_merge None (attributes d) \<and> can_merge None (eventListeners d)
      \<and> text_schema d = None \<and> (case children d of Some (dc # dcs) \<Rightarrow> False | _ \<Rightarrow> True))"

text \<open>The example of the documentation of \<^verbatim>\<open>Template.extend\<close>: the instance and the
  definition that extends it, normalized.\<close>

definition example_instance :: template where
  "example_instance =
     Template (JStr ''p'') Undefined None
       (Some [(''class'', [Lit (JStr ''a'')]),
              (''data-x'', [Bnd (bind_to 0 1 (Name ''foo'') None)])])
       (Some [ChildTemplate
                (Template (JStr ''span'') Undefined None
                   (Some [(''class'', [Lit (JStr ''b'')])])
                   (Some [ChildTemplate
                            (Template Undefined Undefined (Some [Lit (JStr ''Span'')])
                               None None None)])
                   None)])
       None"

definition example_extension :: template where
  "example_extension =
     Template Undefined Undefined None
       (Some [(''class'', [Lit (JStr ''b'')]),
              (''data-x'', [Bnd (bind_to 0 1 (Name ''bar'') None)])])
       (Some [ChildTemplate
                (Template Undefined Undefined None
                   (Some [(''class'', [Lit (JStr ''c'')])]) (Some []) None)])
       None"

text \<open>A definition that goes two levels down: it gives the \<^verbatim>\<open>span\<close> an attribute it has
  not and a listener, and appends to the text below it.\<close>

definition example_nested_extension :: template where
  "example_nested_extension =
     Template Undefined Undefined None
       (Some [(''class'', [Lit (JStr ''b'')])])
       (Some [ChildTemplate
                (Template Undefined Undefined None
                   (Some [(''id'', [Lit (JStr ''c'')])])
                   (Some [ChildTemplate
                            (Template Undefined Undefined (Some [Lit (JStr ''!'')])
                               None None None)])
                   (Some [(''click'', [Bnd (bind_to 0 1 (Name ''clicked'') None)])]))])
       None"

text \<open>A template has exactly one of \<^verbatim>\<open>tag\<close> and \<^verbatim>\<open>text\<close> set.\<close>

definition exactly_one :: "template \<Rightarrow> bool" where
  "exactly_one t = (truthy (tag t) \<noteq> (text_schema t \<noteq> None))"

text \<open>
  A browser for the examples. It accepts a name made of lower-case letters and hyphens
  that starts with a letter, for an element in any namespace and for an attribute in none
  (every browser accepts these, and more); the elements of HTML and SVG have a
  \<^verbatim>\<open>style\<close>.
\<close>

definition simple_name :: "string \<Rightarrow> bool" where
  "simple_name name =
     (name \<noteq> [] \<and> hd name \<noteq> CHR ''-''
      \<and> list_all (\<lambda>c. c \<in> set ''abcdefghijklmnopqrstuvwxyz-'') name)"

definition example_browser :: browser where
  "example_browser =
     \<lparr> createElementNS_accepts = (\<lambda>namespace name. simple_name name),
       setAttributeNS_accepts = (\<lambda>namespace name. namespace = None \<and> simple_name name),
       has_style = (\<lambda>namespace. namespace = xhtmlNs \<or> namespace = ''http://www.w3.org/2000/svg'') \<rparr>"

text \<open>
  What the code can carry out without a \<^verbatim>\<open>TypeError\<close> or a \<^verbatim>\<open>DOMException\<close>, whatever the
  observables hold:
  \<^item> a value schema whose bindings have no callback (a callback is code of the caller and
    may throw) and whose other entries are no object literal with an \<^verbatim>\<open>observable\<close>
    property;
  \<^item> a bound attribute whose name the browser accepts and whose value schema is such (and
    is an array, when it comes from a \<^verbatim>\<open>{ ns, value }\<close> wrapper); a \<^verbatim>\<open>style\<close> object whose
    bound values are such, on an element that has a \<^verbatim>\<open>style\<close> if the object has any key;
    a static attribute whose name the browser accepts, if its value is written at all;
  \<^item> event listeners that are all made by \<^verbatim>\<open>bind.to\<close>.

  \<open>well_typed\<close> asks it of a template and of the child templates below it, asks an element
  template for a tag the browser accepts (when it has a tag) and for its collection of
  children, and asks every view among the children for an element.
\<close>

definition schema_ok :: "item list \<Rightarrow> bool" where
  "schema_ok valueSchema =
     list_all (\<lambda>x. case x of Bnd b \<Rightarrow> callback b = None | _ \<Rightarrow> \<not> has_observable x) valueSchema"

definition attribute_ok :: "browser \<Rightarrow> string option \<Rightarrow> string \<Rightarrow> item list \<Rightarrow> bool" where
  "attribute_ok br elNs attrName attrValue =
     (if hasTemplateBinding (Arr attrValue) then
        setAttributeNS_accepts br (namespace_of (attrNs attrValue)) attrName
        \<and> (if item_truthy (attrNs attrValue) then
             (case get_prop (first_item attrValue) ''value'' of
                Arr valueSchema \<Rightarrow> schema_ok valueSchema
              | _ \<Rightarrow> False)
           else schema_ok attrValue)
      else if attrName = ''style''
              \<and> (case first_item attrValue of Lit (JStr s) \<Rightarrow> False | _ \<Rightarrow> True) then
        (enumerate_item (first_item attrValue) = []
           \<or> (case elNs of None \<Rightarrow> False | Some n \<Rightarrow> has_style br n))
        \<and> list_all (\<lambda>(styleName, styleValue).
                      \<not> hasTemplateBinding styleValue \<or> schema_ok [styleValue])
            (enumerate_item (first_item attrValue))
      else
        (isFalsy (static_attribute_value attrValue)
         \<or> setAttributeNS_accepts br (namespace_of (attrNs attrValue)) attrName))"

definition attributes_ok ::
  "browser \<Rightarrow> string option \<Rightarrow> (string \<times> item list) list option \<Rightarrow> bool" where
  "attributes_ok br elNs attrs =
     (case attrs of
        None \<Rightarrow> True
      | Some as \<Rightarrow> list_all (\<lambda>(attrName, attrValue). attribute_ok br elNs attrName attrValue) as)"

fun is_to_binding :: "item \<Rightarrow> bool" where
  "is_to_binding (Bnd (TemplateToBinding ob em ev a cb)) = True"
| "is_to_binding x = False"

definition listeners_ok :: "(string \<times> item list) list option \<Rightarrow> bool" where
  "listeners_ok listeners =
     (case listeners of
        None \<Rightarrow> True
      | Some ls \<Rightarrow> list_all (\<lambda>(key, schema). list_all is_to_binding schema) ls)"

fun well_typed :: "browser \<Rightarrow> template \<Rightarrow> bool"
and well_typed_children :: "browser \<Rightarrow> child list \<Rightarrow> bool"
where
  "well_typed br (Template tg nsp ts attrs chs lst) =
     (case ts of
        Some valueSchema \<Rightarrow> \<not> hasTemplateBinding (Arr valueSchema) \<or> schema_ok valueSchema
      | None \<Rightarrow>
          (\<not> truthy tg
             \<or> createElementNS_accepts br (to_string (js_or nsp (JStr xhtmlNs))) (to_string tg))
          \<and> attributes_ok br (Some (to_string (js_or nsp (JStr xhtmlNs)))) attrs
          \<and> listeners_ok lst
          \<and> (case chs of None \<Rightarrow> False | Some cs \<Rightarrow> well_typed_children br cs))"
| "well_typed_children br [] = True"
| "well_typed_children br (ChildTemplate c # rest) =
     (well_typed br c \<and> well_typed_children br rest)"
| "well_typed_children br (ChildView v # rest) =
     (element v \<noteq> None \<and> well_typed_children br rest)"
| "well_typed_children br (ChildViewCollection vs # rest) =
     (list_all (\<lambda>v. element v \<noteq> None) vs \<and> well_typed_children br rest)"

text \<open>Every template that rendering comes to (the template, and the child templates of
  an element template, at every depth) has exactly one of \<^verbatim>\<open>tag\<close> and \<^verbatim>\<open>text\<close> set.\<close>

fun valid_tree :: "template \<Rightarrow> bool"
and valid_children :: "child list \<Rightarrow> bool"
where
  "valid_tree (Template tg nsp ts attrs chs lst) =
     (exactly_one (Template tg nsp ts attrs chs lst)
      \<and> (case ts of
            Some valueSchema \<Rightarrow> True
          | None \<Rightarrow> (case chs of None \<Rightarrow> True | Some cs \<Rightarrow> valid_children cs)))"
| "valid_children [] = True"
| "valid_children (ChildTemplate c # rest) = (valid_tree c \<and> valid_children rest)"
| "valid_children (c # rest) = valid_children rest"

text \<open>Two elements that differ at most in their attributes and inline style.\<close>

definition attrs_only :: "dom \<Rightarrow> dom \<Rightarrow> bool" where
  "attrs_only el el' =
     (case (el, el') of
        (Element n t as st cs, Element n' t' as' st' cs') \<Rightarrow> n' = n \<and> t' = t \<and> cs' = cs
      | _ \<Rightarrow> False)"

fun is_element :: "dom \<Rightarrow> bool" where
  "is_element (Element n t as st cs) = True"
| "is_element (TextNode s) = False"

text \<open>\<^verbatim>\<open>node.namespaceURI\<close>, which a text node has not.\<close>

fun namespaceURI :: "dom \<Rightarrow> string option" where
  "namespaceURI (Element n t as st cs) = Some n"
| "namespaceURI (TextNode s) = None"

text \<open>
  When applying a template to a node goes through: the template has not both \<^verbatim>\<open>tag\<close> and
  \<^verbatim>\<open>text\<close>; its text can be activated; a template without \<^verbatim>\<open>text\<close> meets an element on
  which its attributes and listeners can be carried out, and each of its child templates,
  counted from 0, can be applied to the child node of that index, or, where the element
  has no such child node, can be rendered.
\<close>

fun applicable :: "browser \<Rightarrow> template \<Rightarrow> dom \<Rightarrow> bool"
and applicable_children :: "browser \<Rightarrow> child list \<Rightarrow> dom list \<Rightarrow> nat \<Rightarrow> bool"
where
  "applicable br (Template tg nsp ts attrs chs lst) node =
     (\<not> (truthy tg \<and> ts \<noteq> None)
      \<and> (case ts of
            Some valueSchema \<Rightarrow> \<not> hasTemplateBinding (Arr valueSchema) \<or> schema_ok valueSchema
          | None \<Rightarrow>
              is_element node \<and> attributes_ok br (namespaceURI node) attrs \<and> listeners_ok lst
              \<and> (case chs of
                    None \<Rightarrow> False
                  | Some cs \<Rightarrow> applicable_children br cs (child_nodes node) 0)))"
| "applicable_children br [] container childIndex = True"
| "applicable_children br (ChildTemplate c # rest) container childIndex =
     ((if childIndex < length container then applicable br c (container ! childIndex)
       else well_typed br c \<and> valid_tree c)
      \<and> applicable_children br rest container (Suc childIndex))"
| "applicable_children br (c # rest) container childIndex =
     applicable_children br rest container childIndex"

text \<open>The same element as before up to attributes, style and what is inside its children:
  same namespace and tag, as many child nodes.\<close>

definition shape_kept :: "dom \<Rightarrow> dom \<Rightarrow> bool" where
  "shape_kept node node' =
     (case (node, node') of
        (Element n t as st cs, Element n' t' as' st' cs') \<Rightarrow>
          n' = n \<and> t' = t \<and> length cs' = length cs
      | _ \<Rightarrow> False)"

section \<open>Properties\<close>

subsection \<open>Falsy values and the aggregation rule\<close>

lemma isFalsy_iff: "isFalsy v \<longleftrightarrow> v \<in> {JBool False, Null, Undefined, JStr [], JNaN}"
  by (cases v) (auto simp: isFalsy_def)

lemma isFalsy_simps [simp]:
  "isFalsy Undefined" "isFalsy Null" "isFalsy (JBool b) = (\<not> b)" "isFalsy (JNum n) = False"
  "isFalsy JNaN" "isFalsy (JStr s) = (s = [])" "isFalsy (JObj s) = False"
  by (simp_all add: isFalsy_def)

lemma reducer_falsy_cur: "isFalsy cur \<Longrightarrow> arrayValueReducer prev cur = prev"
  by (simp add: arrayValueReducer_def)

lemma foldl_reducer_filter:
  "foldl arrayValueReducer acc vs = foldl arrayValueReducer acc (filter (\<lambda>v. \<not> isFalsy v) vs)"
  by (induction vs arbitrary: acc) (simp_all add: reducer_falsy_cur)

lemma join_strings_Cons:
  "ss \<noteq> [] \<Longrightarrow> join_strings sep (s # ss) = s @ sep @ join_strings sep ss"
  by (cases ss) simp_all

lemma foldl_reducer_nonfalsy:
  "\<not> isFalsy acc \<Longrightarrow> \<forall>v \<in> set vs. \<not> isFalsy v \<Longrightarrow>
   foldl arrayValueReducer acc vs =
     (if vs = [] then acc else JStr (join_strings '' '' (to_string acc # map to_string vs)))"
proof (induction vs arbitrary: acc)
  case Nil
  then show ?case by simp
next
  case (Cons v vs)
  have nf: "\<not> isFalsy (JStr (to_string acc @ '' '' @ to_string v))"
    by simp
  have step: "arrayValueReducer acc v = JStr (to_string acc @ '' '' @ to_string v)"
    using Cons.prems by (simp add: arrayValueReducer_def)
  show ?case
    using Cons.IH [OF nf] Cons.prems(2)
    by (cases vs) (simp_all add: step)
qed

lemma foldl_reducer_start:
  "\<forall>v \<in> set vs. \<not> isFalsy v \<Longrightarrow>
   foldl arrayValueReducer (JStr []) vs =
     (case vs of
        [] \<Rightarrow> JStr []
      | [v] \<Rightarrow> v
      | v # w # ws \<Rightarrow> JStr (join_strings '' '' (map to_string (v # w # ws))))"
proof (cases vs)
  case Nil
  then show ?thesis by simp
next
  case (Cons v rest)
  assume nf: "\<forall>v \<in> set vs. \<not> isFalsy v"
  from nf Cons have v: "\<not> isFalsy v" and rest: "\<forall>x \<in> set rest. \<not> isFalsy x"
    by simp_all
  have first: "arrayValueReducer (JStr []) v = v"
    using v by (simp add: arrayValueReducer_def)
  have "foldl arrayValueReducer (JStr []) vs = foldl arrayValueReducer v rest"
    by (simp only: Cons foldl_Cons first)
  also have "\<dots> = (if rest = [] then v
                    else JStr (join_strings '' '' (to_string v # map to_string rest)))"
    by (rule foldl_reducer_nonfalsy [OF v rest])
  finally show ?thesis
    unfolding Cons by (cases rest) simp_all
qed

lemma reduce_values_exact:
  "reduce_values vs =
     (case filter (\<lambda>v. \<not> isFalsy v) vs of
        [] \<Rightarrow> JStr []
      | [v] \<Rightarrow> v
      | v # w # ws \<Rightarrow> JStr (join_strings '' '' (map to_string (v # w # ws))))"
proof -
  have "reduce_values vs = foldl arrayValueReducer (JStr []) (filter (\<lambda>v. \<not> isFalsy v) vs)"
    unfolding reduce_values_def by (rule foldl_reducer_filter)
  also have "\<dots> = (case filter (\<lambda>v. \<not> isFalsy v) vs of
        [] \<Rightarrow> JStr []
      | [v] \<Rightarrow> v
      | v # w # ws \<Rightarrow> JStr (join_strings '' '' (map to_string (v # w # ws))))"
    by (rule foldl_reducer_start) simp
  finally show ?thesis .
qed

lemma filter_isFalsy_JStr:
  "filter (\<lambda>v. \<not> isFalsy v) (map JStr ss) = map JStr (filter (\<lambda>s. s \<noteq> []) ss)"
  by (induction ss) simp_all

lemma map_to_string_JStr: "map to_string (map JStr ss) = ss"
  by (induction ss) simp_all

lemma reduce_values_strings:
  "reduce_values (map JStr ss) = JStr (join_strings '' '' (filter (\<lambda>s. s \<noteq> []) ss))"
proof (cases "filter (\<lambda>s. s \<noteq> []) ss")
  case Nil
  then show ?thesis by (simp add: reduce_values_exact filter_isFalsy_JStr)
next
  case (Cons s rest)
  note outer = Cons
  show ?thesis
  proof (cases rest)
    case Nil
    with outer show ?thesis by (simp add: reduce_values_exact filter_isFalsy_JStr)
  next
    case (Cons t more)
    with outer show ?thesis
      by (simp add: reduce_values_exact filter_isFalsy_JStr map_to_string_JStr comp_def del: join_strings.simps)
  qed
qed

lemma reduce_values_to_string:
  "to_string (reduce_values vs) = join_strings '' '' (map to_string (filter (\<lambda>v. \<not> isFalsy v) vs))"
proof (cases "filter (\<lambda>v. \<not> isFalsy v) vs")
  case Nil
  then show ?thesis by (simp add: reduce_values_exact)
next
  case (Cons s rest)
  then show ?thesis by (cases rest) (simp_all add: reduce_values_exact)
qed

text \<open>
  Claim C6. Folding a list of literal values with \<^verbatim>\<open>arrayValueReducer\<close> from the empty string
  gives the space-joined concatenation of the entries that are not falsy: for a list of
  strings it is exactly the non-empty strings joined by single spaces (nothing before the
  first one); for a list of any values the result, read as a string, is the join of the
  non-falsy entries' strings (the result itself is the empty string when no entry is left,
  the entry as it is when one is left, the joined string otherwise); and
  \<^verbatim>\<open>[ "a", "", "b" ]\<close> reduces to \<^verbatim>\<open>"a b"\<close>.
\<close>

theorem arrayValueReducer_space_join:
  "reduce_values (map JStr ss) = JStr (join_strings '' '' (filter (\<lambda>s. s \<noteq> []) ss))
   \<and> to_string (reduce_values vs) = join_strings '' '' (map to_string (filter (\<lambda>v. \<not> isFalsy v) vs))
   \<and> reduce_values vs =
       (case filter (\<lambda>v. \<not> isFalsy v) vs of
          [] \<Rightarrow> JStr []
        | [v] \<Rightarrow> v
        | v # w # ws \<Rightarrow> JStr (join_strings '' '' (map to_string (v # w # ws))))
   \<and> reduce_values [JStr ''a'', JStr [], JStr ''b''] = JStr ''a b''"
proof (intro conjI)
  show "reduce_values (map JStr ss) = JStr (join_strings '' '' (filter (\<lambda>s. s \<noteq> []) ss))"
    by (rule reduce_values_strings)
  show "to_string (reduce_values vs) = join_strings '' '' (map to_string (filter (\<lambda>v. \<not> isFalsy v) vs))"
    by (rule reduce_values_to_string)
  show "reduce_values vs =
       (case filter (\<lambda>v. \<not> isFalsy v) vs of
          [] \<Rightarrow> JStr []
        | [v] \<Rightarrow> v
        | v # w # ws \<Rightarrow> JStr (join_strings '' '' (map to_string (v # w # ws))))"
    by (rule reduce_values_exact)
  show "reduce_values [JStr ''a'', JStr [], JStr ''b''] = JStr ''a b''"
    by (simp add: reduce_values_def arrayValueReducer_def)
qed

subsection \<open>Conditional bindings\<close>

text \<open>
  Claim C4, as amended. For a conditional binding, with \<open>v\<close> the source value (passed
  through the callback when there is one): \<^verbatim>\<open>getValue\<close> returns \<^verbatim>\<open>false\<close> exactly when
  \<open>v\<close> is \<^verbatim>\<open>false\<close>, \<^verbatim>\<open>null\<close>, \<^verbatim>\<open>undefined\<close>, the empty string or \<^verbatim>\<open>NaN\<close>; otherwise it
  returns the configured \<^verbatim>\<open>valueIfTrue\<close> when that is truthy, and \<^verbatim>\<open>true\<close> when it is not
  (none configured, or one that is itself falsy in JavaScript's sense). The value \<^verbatim>\<open>0\<close> is
  not collapsed to \<^verbatim>\<open>false\<close>.
\<close>

theorem TemplateIfBinding_getValue_collapses:
  "getValue obs (TemplateIfBinding ob em a vit cb) node =
     (if TemplateBinding_getValue obs (TemplateIfBinding ob em a vit cb) node
           \<in> {JBool False, Null, Undefined, JStr [], JNaN}
      then JBool False
      else if truthy vit then vit else JBool True)
   \<and> TemplateBinding_getValue obs (TemplateIfBinding ob em a vit cb) node =
       (case cb of None \<Rightarrow> obs ob a | Some f \<Rightarrow> f (obs ob a) node)
   \<and> getValue (\<lambda>r k. JNum 0) (TemplateIfBinding ob em a vit None) node =
       (if truthy vit then vit else JBool True)"
  by (simp add: TemplateIfBinding_getValue_def TemplateBinding_getValue_def isFalsy_iff
                js_or_def Let_def)

text \<open>
  The claim as it was stated fails in two places. A binding configured with the empty
  string (or with \<^verbatim>\<open>0\<close>) as its \<^verbatim>\<open>valueIfTrue\<close> does not return that configured value on
  a truthy source value, but \<^verbatim>\<open>true\<close>; and the source value \<^verbatim>\<open>NaN\<close>, which is none of
  \<^verbatim>\<open>false\<close>, \<^verbatim>\<open>null\<close>, \<^verbatim>\<open>undefined\<close> and the empty string, is collapsed to \<^verbatim>\<open>false\<close>.
\<close>

theorem TemplateIfBinding_getValue_counterexample:
  "valueIfTrue (bind_if 0 0 (Name ''a'') (JStr []) None) = JStr []
   \<and> getValue (\<lambda>r k. JStr ''on'') (bind_if 0 0 (Name ''a'') (JStr []) None) (TextNode [])
       = JBool True
   \<and> getValue (\<lambda>r k. JStr ''on'') (bind_if 0 0 (Name ''a'') (JNum 0) None) (TextNode [])
       = JBool True
   \<and> JNaN \<notin> {JBool False, Null, Undefined, JStr []}
   \<and> getValue (\<lambda>r k. JNaN) (bind_if 0 0 (Name ''a'') (JStr ''yes'') None) (TextNode [])
       = JBool False"
  by (simp add: bind_if_def TemplateIfBinding_getValue_def TemplateBinding_getValue_def js_or_def)

text \<open>
  Claim C10. A conditional binding whose configured \<^verbatim>\<open>valueIfTrue\<close> is itself falsy in
  JavaScript's sense (the empty string, \<^verbatim>\<open>0\<close>) returns the boolean \<^verbatim>\<open>true\<close> on a source value
  that is not collapsed, not the configured literal; so \<^verbatim>\<open>getValue\<close> of a conditional
  binding is truthy or the boolean \<^verbatim>\<open>false\<close>.
\<close>

theorem TemplateIfBinding_falsy_valueIfTrue:
  "(\<not> truthy vit
      \<and> \<not> isFalsy (TemplateBinding_getValue obs (TemplateIfBinding ob em a vit cb) node)
      \<longrightarrow> getValue obs (TemplateIfBinding ob em a vit cb) node = JBool True)
   \<and> (truthy (getValue obs (TemplateIfBinding ob em a vit cb) node)
        \<or> getValue obs (TemplateIfBinding ob em a vit cb) node = JBool False)"
  by (simp add: TemplateIfBinding_getValue_def js_or_def Let_def)

theorem TemplateIfBinding_falsy_valueIfTrue_witness:
  "getValue (\<lambda>r k. JStr ''on'') (TemplateIfBinding 0 0 (Name ''a'') (JStr []) None) (TextNode [])
     = JBool True
   \<and> getValue (\<lambda>r k. JNum 7) (TemplateIfBinding 0 0 (Name ''a'') (JNum 0) None) (TextNode [])
     = JBool True"
  using TemplateIfBinding_falsy_valueIfTrue
          [of "JStr []" "\<lambda>r k. JStr ''on''" 0 0 "Name ''a''" None "TextNode []"]
        TemplateIfBinding_falsy_valueIfTrue
          [of "JNum 0" "\<lambda>r k. JNum 7" 0 0 "Name ''a''" None "TextNode []"]
  by (simp add: TemplateBinding_getValue_def)

subsection \<open>Synchronising a value schema\<close>

lemma getValueSchemaValue_nth:
  "i < length valueSchema \<Longrightarrow>
   getValueSchemaValue obs valueSchema node ! i =
     (case valueSchema ! i of Bnd b \<Rightarrow> getValue obs b node | x \<Rightarrow> item_value x)"
  by (simp add: getValueSchemaValue_def split: item.splits)

lemma bindToObservable_sync:
  "bindToObservable obs valueSchema node upd = Inr (node', es) \<Longrightarrow>
   syncValueSchemaValue obs valueSchema node upd = Inr node'"
  by (auto simp: bindToObservable_def split: sum.splits)

text \<open>
  Claim C5. The listener that \<^verbatim>\<open>activateAttributeListener\<close> sets up runs
  \<^verbatim>\<open>syncValueSchemaValue\<close> on the whole value schema at each change, as \<^verbatim>\<open>_bindToObservable\<close>
  does once at the start. \<^verbatim>\<open>syncValueSchemaValue\<close> computes one value from the schema, calls
  the updater's \<^verbatim>\<open>remove\<close> when that value is falsy and its \<^verbatim>\<open>set\<close> with the value
  otherwise, whatever the updater. For a schema that is exactly one conditional binding the
  value is that binding's own value; for every other schema it is the reduction of the list
  that has, entry by entry, the literal as it stands and the current value of each binding.
\<close>

theorem syncValueSchemaValue_recomputes:
  "attribute_changed obs (activateAttributeListener b valueSchema upd) node
     = syncValueSchemaValue obs valueSchema node upd
   \<and> (bindToObservable obs valueSchema node upd = Inr (node', es)
        \<longrightarrow> syncValueSchemaValue obs valueSchema node upd = Inr node')
   \<and> syncValueSchemaValue obs valueSchema node upd =
       (if isFalsy (schema_value obs valueSchema node) then upd_remove upd node
        else upd_set upd (schema_value obs valueSchema node) node)
   \<and> schema_value obs [Bnd (TemplateIfBinding ob em a vit cb)] node
       = getValue obs (TemplateIfBinding ob em a vit cb) node
   \<and> (\<not> (length valueSchema = 1 \<and> instanceof_TemplateIfBinding (valueSchema ! 0))
        \<longrightarrow> schema_value obs valueSchema node
            = reduce_values (getValueSchemaValue obs valueSchema node))
   \<and> length (getValueSchemaValue obs valueSchema node) = length valueSchema
   \<and> (\<forall>i < length valueSchema.
         getValueSchemaValue obs valueSchema node ! i =
           (case valueSchema ! i of Bnd b' \<Rightarrow> getValue obs b' node | x \<Rightarrow> item_value x))"
proof (intro conjI)
  show "attribute_changed obs (activateAttributeListener b valueSchema upd) node
     = syncValueSchemaValue obs valueSchema node upd"
    by (simp add: activateAttributeListener_def)
  show "bindToObservable obs valueSchema node upd = Inr (node', es)
        \<longrightarrow> syncValueSchemaValue obs valueSchema node upd = Inr node'"
    by (simp add: bindToObservable_sync)
  show "syncValueSchemaValue obs valueSchema node upd =
       (if isFalsy (schema_value obs valueSchema node) then upd_remove upd node
        else upd_set upd (schema_value obs valueSchema node) node)"
    by (simp add: syncValueSchemaValue_def Let_def)
  show "schema_value obs [Bnd (TemplateIfBinding ob em a vit cb)] node
       = getValue obs (TemplateIfBinding ob em a vit cb) node"
    by (simp add: schema_value_def getValueSchemaValue_def)
  show "\<not> (length valueSchema = 1 \<and> instanceof_TemplateIfBinding (valueSchema ! 0))
        \<longrightarrow> schema_value obs valueSchema node
            = reduce_values (getValueSchemaValue obs valueSchema node)"
    by (simp add: schema_value_def Let_def)
  show "length (getValueSchemaValue obs valueSchema node) = length valueSchema"
    by (simp add: getValueSchemaValue_def)
  show "\<forall>i < length valueSchema.
         getValueSchemaValue obs valueSchema node ! i =
           (case valueSchema ! i of Bnd b' \<Rightarrow> getValue obs b' node | x \<Rightarrow> item_value x)"
    by (simp add: getValueSchemaValue_nth)
qed

lemmas sync_eval =
  bindToObservable_def item_isFalsy_def has_observable_def bind_to_def bind_if_def
  syncValueSchemaValue_def schema_value_def getValueSchemaValue_def reduce_values_def
  arrayValueReducer_def TemplateBinding_getValue_def TemplateIfBinding_getValue_def js_or_def
  getAttributeUpdater_def getTextUpdater_def getStyleUpdater_def createElementNS_def
  createTextNode_def activateAttributeListener_def example_browser_def simple_name_def
  local_name_def

theorem syncValueSchemaValue_recomputes_witness:
  "attribute_changed (\<lambda>r k. if k = Name ''foo'' then JStr ''bar'' else Undefined)
     (activateAttributeListener (bind_to 0 1 (Name ''foo'') None)
        [Lit (JStr ''a''), Bnd (bind_to 0 1 (Name ''foo'') None)]
        (getAttributeUpdater example_browser ''class'' None))
     (Element ''ns'' ''p'' [] [] [])
     = Inr (Element ''ns'' ''p'' [((None, ''class''), ''a bar'')] [] [])
   \<and> attribute_changed (\<lambda>r k. Undefined)
     (activateAttributeListener (bind_if 0 1 (Name ''foo'') Undefined None)
        [Bnd (bind_if 0 1 (Name ''foo'') Undefined None)]
        (getAttributeUpdater example_browser ''checked'' None))
     (Element ''ns'' ''input'' [((None, ''checked''), ''true'')] [] [])
     = Inr (Element ''ns'' ''input'' [] [] [])
   \<and> schema_value (\<lambda>r k. JNum 1) [Bnd (TemplateIfBinding 0 1 (Name ''foo'') Undefined None)]
         (TextNode []) = JBool True"
  using syncValueSchemaValue_recomputes
          [of "\<lambda>r k. if k = Name ''foo'' then JStr ''bar'' else Undefined"
              "bind_to 0 1 (Name ''foo'') None"
              "[Lit (JStr ''a''), Bnd (bind_to 0 1 (Name ''foo'') None)]"
              "getAttributeUpdater example_browser ''class'' None" "Element ''ns'' ''p'' [] [] []"]
        syncValueSchemaValue_recomputes
          [of "\<lambda>r k. Undefined"
              "bind_if 0 1 (Name ''foo'') Undefined None"
              "[Bnd (bind_if 0 1 (Name ''foo'') Undefined None)]"
              "getAttributeUpdater example_browser ''checked'' None"
              "Element ''ns'' ''input'' [((None, ''checked''), ''true'')] [] []"]
        syncValueSchemaValue_recomputes
          [of "\<lambda>r k. JNum 1" undefined "[]" undefined "TextNode []" undefined undefined
              0 1 "Name ''foo''" Undefined None]
  by (simp add: sync_eval)

subsection \<open>Subscribing to the bindings of a value schema\<close>

lemma bindings_of_simps [simp]:
  "bindings_of [] = []"
  "bindings_of (x # xs) = (case x of Bnd b \<Rightarrow> [b] | _ \<Rightarrow> []) @ bindings_of xs"
  by (simp_all add: bindings_of_def)

lemma activate_all_bindings:
  "\<forall>x \<in> set xs. has_observable x \<longrightarrow> instanceof_TemplateBinding x \<Longrightarrow>
   activate_all (filter has_observable (filter (\<lambda>x. \<not> item_isFalsy x) xs)) valueSchema upd =
     Inr (map (\<lambda>b. activateAttributeListener b valueSchema upd) (bindings_of xs))"
proof (induction xs)
  case Nil
  then show ?case by simp
next
  case (Cons x xs)
  then have IH: "activate_all (filter has_observable (filter (\<lambda>x. \<not> item_isFalsy x) xs)) valueSchema upd =
     Inr (map (\<lambda>b. activateAttributeListener b valueSchema upd) (bindings_of xs))"
    by simp
  show ?case
  proof (cases x)
    case (Bnd b)
    then show ?thesis
      using IH by (simp add: has_observable_def item_isFalsy_def)
  next
    case (Lit v)
    then show ?thesis
      using IH by (simp add: has_observable_def)
  next
    case (Arr ys)
    then show ?thesis
      using IH by (simp add: has_observable_def)
  next
    case (Obj kvs)
    with Cons.prems have "\<not> has_observable x" by auto
    with Obj show ?thesis
      using IH by simp
  qed
qed

text \<open>
  Claim C8. Activating a value schema on a node subscribes to the attribute change of every
  binding among its entries, in order and whatever the observables hold at that time (the
  list of listeners does not depend on them), and of nothing else; a literal entry sets
  up no listener and is an entry of the list of values that is aggregated. The hypothesis
  leaves out the one entry the code cannot handle: an object literal with an
  \<^verbatim>\<open>observable\<close> property of its own.
\<close>

theorem bindToObservable_subscribes_every_binding:
  assumes "\<forall>x \<in> set valueSchema. has_observable x \<longrightarrow> instanceof_TemplateBinding x"
  shows "bindToObservable obs valueSchema node upd =
           (case syncValueSchemaValue obs valueSchema node upd of
              Inl e \<Rightarrow> Inl e
            | Inr node' \<Rightarrow>
                Inr (node', map (\<lambda>b. ListenToObservable [] (emitter b) (observable b) (attribute b)
                                       valueSchema upd) (bindings_of valueSchema)))
         \<and> (\<forall>i < length valueSchema. \<forall>v. valueSchema ! i = Lit v
               \<longrightarrow> getValueSchemaValue obs valueSchema node ! i = v)"
proof
  show "bindToObservable obs valueSchema node upd =
           (case syncValueSchemaValue obs valueSchema node upd of
              Inl e \<Rightarrow> Inl e
            | Inr node' \<Rightarrow>
                Inr (node', map (\<lambda>b. ListenToObservable [] (emitter b) (observable b) (attribute b)
                                       valueSchema upd) (bindings_of valueSchema)))"
    unfolding bindToObservable_def activate_all_bindings [OF assms]
    by (simp add: activateAttributeListener_def split: sum.splits)
  show "\<forall>i < length valueSchema. \<forall>v. valueSchema ! i = Lit v
               \<longrightarrow> getValueSchemaValue obs valueSchema node ! i = v"
    by (simp add: getValueSchemaValue_nth)
qed

theorem bindToObservable_subscribes_every_binding_witness:
  "bindToObservable (\<lambda>r k. Undefined)
     [Lit (JStr ''a''), Bnd (bind_to 0 1 (Name ''foo'') None), Lit (JStr []),
      Bnd (bind_if 2 3 (Name ''bar'') (JStr ''on'') None)]
     (Element ''ns'' ''p'' [] [] []) (getAttributeUpdater example_browser ''class'' None)
   = Inr (Element ''ns'' ''p'' [((None, ''class''), ''a'')] [] [],
          [ListenToObservable [] 1 0 (Name ''foo'')
             [Lit (JStr ''a''), Bnd (bind_to 0 1 (Name ''foo'') None), Lit (JStr []),
              Bnd (bind_if 2 3 (Name ''bar'') (JStr ''on'') None)]
             (getAttributeUpdater example_browser ''class'' None),
           ListenToObservable [] 3 2 (Name ''bar'')
             [Lit (JStr ''a''), Bnd (bind_to 0 1 (Name ''foo'') None), Lit (JStr []),
              Bnd (bind_if 2 3 (Name ''bar'') (JStr ''on'') None)]
             (getAttributeUpdater example_browser ''class'' None)])"
proof -
  have h: "\<forall>x \<in> set [Lit (JStr ''a''), Bnd (bind_to 0 1 (Name ''foo'') None), Lit (JStr []),
      Bnd (bind_if 2 3 (Name ''bar'') (JStr ''on'') None)].
        has_observable x \<longrightarrow> instanceof_TemplateBinding x"
    by (simp add: has_observable_def)
  show ?thesis
    using bindToObservable_subscribes_every_binding [OF h, of "\<lambda>r k. Undefined"
            "Element ''ns'' ''p'' [] [] []" "getAttributeUpdater example_browser ''class'' None"]
    by (simp add: sync_eval)
qed

subsection \<open>DOM event listeners\<close>

text \<open>
  Claim C9. Activating an event binding sets up one listener for the event on the
  element. When the event fires, a listener with a (non-empty) selector acts only if the
  target of the event matches the selector, and a listener without a selector always
  acts; to act is to call the function the binding was made with, with the native event,
  or else to fire the event named by the binding on the observable, with the native event.
  The selector is what follows \<^verbatim>\<open>@\<close> in the key.
\<close>

theorem dom_listener_selector:
  "activateDomEventListener (TemplateToBinding ob em ev a cb) domEvtName domSelector
     = Inr (ListenToDom [] em domEvtName domSelector (TemplateToBinding ob em ev a cb))
   \<and> (sel \<noteq> [] \<longrightarrow>
        dom_listener_fired matches
          (ListenToDom p em n (Some sel) (TemplateToBinding ob em ev a cb)) domEvt =
          (if matches (evt_target domEvt) sel
           then dom_event_fired matches (TemplateToBinding ob em ev a cb) None domEvt
           else []))
   \<and> dom_listener_fired matches
         (ListenToDom p em n None (TemplateToBinding ob em ev a cb)) domEvt
       = dom_event_fired matches (TemplateToBinding ob em ev a cb) None domEvt
   \<and> dom_listener_fired matches
         (ListenToDom p em n (Some []) (TemplateToBinding ob em ev a cb)) domEvt
       = dom_event_fired matches (TemplateToBinding ob em ev a cb) None domEvt
   \<and> dom_event_fired matches (TemplateToBinding ob em ev a cb) None domEvt =
       (case ev of
          Function f \<Rightarrow> [CallFunction f domEvt]
        | Name nm \<Rightarrow> [FireEvent ob nm domEvt])
   \<and> setUpListeners (Some [(key, [Bnd (TemplateToBinding ob em ev a cb)])])
       = Inr [ListenToDom [] em (fst (split_key key)) (snd (split_key key))
                (TemplateToBinding ob em ev a cb)]"
  by (simp add: setUpListeners_def)

theorem dom_listener_selector_witness:
  "dom_listener_fired (\<lambda>n s. n = TextNode s)
     (ListenToDom [] 1 ''click'' (Some ''.foo'') (bind_to 0 1 (Name ''clicked'') None))
     \<lparr> evt_target = TextNode ''.foo'', evt_payload = 5 \<rparr>
     = [FireEvent 0 ''clicked'' \<lparr> evt_target = TextNode ''.foo'', evt_payload = 5 \<rparr>]
   \<and> dom_listener_fired (\<lambda>n s. n = TextNode s)
     (ListenToDom [] 1 ''click'' (Some ''.foo'') (bind_to 0 1 (Function 9) None))
     \<lparr> evt_target = TextNode ''.bar'', evt_payload = 5 \<rparr>
     = []
   \<and> split_key ''click@.foo'' = (''click'', Some ''.foo'')
   \<and> split_key ''click'' = (''click'', None)"
  using dom_listener_selector
          [of 0 1 "Name ''clicked''" "Name ''clicked''" None _ _ "''.foo''"
              "\<lambda>n s. n = TextNode s" "[]" "''click''"
              "\<lparr> evt_target = TextNode ''.foo'', evt_payload = 5 \<rparr>"]
        dom_listener_selector
          [of 0 1 "Function 9" "Function 9" None _ _ "''.foo''"
              "\<lambda>n s. n = TextNode s" "[]" "''click''"
              "\<lparr> evt_target = TextNode ''.bar'', evt_payload = 5 \<rparr>"]
  by (simp add: bind_to_def split_key_def)

subsection \<open>Extending\<close>

lemma extendObjectValueArray_returns:
  "list_all (\<lambda>(a, v). a \<in> fst ` set obj \<or> a \<notin> set object_prototype_keys) ext \<Longrightarrow>
   \<exists>obj'. extendObjectValueArray obj ext = Inr obj'"
proof (induction ext arbitrary: obj)
  case Nil
  then show ?case by simp
next
  case (Cons p ext)
  obtain a v where p: "p = (a, v)" by (cases p)
  have mono: "list_all (\<lambda>(a', v'). a' \<in> fst ` set (AList.update a w obj)
                          \<or> a' \<notin> set object_prototype_keys) ext" for w
    using Cons.prems by (auto simp: list_all_iff p dom_update)
  show ?case
  proof (cases "map_of obj a")
    case (Some old)
    with Cons.IH [OF mono] show ?thesis by (simp add: p)
  next
    case None
    then have "a \<notin> fst ` set obj" by (simp add: map_of_eq_None_iff)
    with Cons.prems p have "a \<notin> set object_prototype_keys" by simp
    with None Cons.IH [OF mono] show ?thesis by (simp add: p)
  qed
qed

lemma extendObjectValueArray_TypeError:
  "extendObjectValueArray obj ext = Inl e \<Longrightarrow> e = TypeError"
  by (induction obj ext rule: extendObjectValueArray.induct)
     (auto split: option.splits if_splits)

lemma map_of_extendObjectValueArray:
  "distinct (map fst ext) \<Longrightarrow> extendObjectValueArray obj ext = Inr obj' \<Longrightarrow>
   map_of obj' k =
     (case map_of ext k of
        None \<Rightarrow> map_of obj k
      | Some v \<Rightarrow> Some ((case map_of obj k of None \<Rightarrow> [] | Some old \<Rightarrow> old) @ v))"
proof (induction ext arbitrary: obj)
  case Nil
  then show ?case by simp
next
  case (Cons p ext)
  obtain a v where p: "p = (a, v)" by (cases p)
  from Cons.prems p have d: "distinct (map fst ext)" and notin: "a \<notin> fst ` set ext"
    by simp_all
  from notin have none: "map_of ext a = None"
    by (simp add: map_of_eq_None_iff)
  from Cons.prems(2) p obtain w where
    rest: "extendObjectValueArray (AList.update a w obj) ext = Inr obj'"
    and w: "w = (case map_of obj a of None \<Rightarrow> [] | Some old \<Rightarrow> old) @ v"
    by (auto split: option.splits if_splits)
  show ?case
    unfolding p Cons.IH [OF d rest]
    using none by (simp add: update_conv' w split: option.splits)
qed

lemma extend_property_None [simp]: "extend_property obj None = Inr obj"
  by (simp add: extend_property_def)

lemma extend_property_returns:
  "can_merge obj ext \<Longrightarrow> \<exists>r. extend_property obj ext = Inr r"
proof (cases ext)
  case None
  then show ?thesis by simp
next
  case (Some e)
  assume "can_merge obj ext"
  with Some have "list_all (\<lambda>(a, v). a \<in> fst ` set (case obj of None \<Rightarrow> [] | Some kvs \<Rightarrow> kvs)
                              \<or> a \<notin> set object_prototype_keys) e"
    by (simp add: can_merge_def)
  from extendObjectValueArray_returns [OF this] show ?thesis
    by (auto simp: extend_property_def Some)
qed

lemma extend_property_not_Inl:
  "can_merge obj ext \<Longrightarrow> extend_property obj ext \<noteq> Inl e"
  using extend_property_returns [of obj ext] by auto

lemma extend_property_TypeError:
  "extend_property obj ext = Inl e \<Longrightarrow> e = TypeError"
  by (auto simp: extend_property_def split: option.splits sum.splits
           dest: extendObjectValueArray_TypeError)

lemma extend_property_keywise:
  "extend_property obj (Some da) = Inr r \<Longrightarrow> distinct (map fst da) \<Longrightarrow>
   object_of r = concat_keywise (object_of obj) (map_of da)"
  by (auto simp: extend_property_def object_of_def concat_keywise_def fun_eq_iff
                 map_of_extendObjectValueArray split: option.splits sum.splits)

lemma extendChildren_nth:
  "length cs = length ds \<Longrightarrow> extendChildren cs ds = Inr cs' \<Longrightarrow>
   length cs' = length cs \<and> (\<forall>i < length cs. extendChild (cs ! i) (ds ! i) = Inr (cs' ! i))"
proof (induction cs ds arbitrary: cs' rule: list_induct2)
  case Nil
  then show ?case by simp
next
  case (Cons c cs d ds)
  from Cons.prems obtain c' rest where c': "extendChild c d = Inr c'"
    and rest: "extendChildren cs ds = Inr rest" and cs': "cs' = c' # rest"
    by (auto split: sum.splits)
  from Cons.IH [OF rest] show ?case
    by (auto simp: cs' c' nth_Cons split: nat.splits)
qed

lemma can_extend_children_nth:
  "length cs = length ds \<Longrightarrow> can_extend_children cs ds \<Longrightarrow>
   \<forall>i < length cs. can_extend_child (cs ! i) (ds ! i)"
proof (induction cs ds rule: list_induct2)
  case Nil
  then show ?case by simp
next
  case (Cons c cs d ds)
  then show ?case by (auto simp: nth_Cons split: nat.splits)
qed

lemma extendTemplate_steps:
  assumes "extend_property attrs (attributes d0) = Inr attrs'"
    and "extend_property lst (eventListeners d0) = Inr lst'"
    and "text_schema d0 = None \<or> ts \<noteq> None"
  shows "extendTemplate (Template tg nsp ts attrs chs lst) d0 =
     (case children d0 of
        Some (dc # dcs) \<Rightarrow>
          (case chs of
             None \<Rightarrow> Inl TypeError
           | Some cs \<Rightarrow>
               if length cs \<noteq> length (dc # dcs) then Inl ChildCountMismatch
               else (case extendChildren cs (dc # dcs) of
                       Inl e \<Rightarrow> Inl e
                     | Inr cs' \<Rightarrow>
                         Inr (Template tg nsp
                               (case text_schema d0 of None \<Rightarrow> ts | Some dt \<Rightarrow> Some (the ts @ dt))
                               attrs' (Some cs') lst')))
      | _ \<Rightarrow>
          Inr (Template tg nsp
                (case text_schema d0 of None \<Rightarrow> ts | Some dt \<Rightarrow> Some (the ts @ dt))
                attrs' chs lst'))"
  using assms by (auto split: option.splits list.splits sum.splits)

lemma extendTemplate_no_mismatch:
  "children d0 = None \<or> children d0 = Some [] \<Longrightarrow>
   extendTemplate (Template tg nsp ts attrs chs lst) d0 \<noteq> Inl ChildCountMismatch"
  by (auto split: option.splits sum.splits dest: extend_property_TypeError)

declare extendTemplate.simps [simp del]

lemma can_extend_returns:
  "can_extend t d0 \<Longrightarrow> \<exists>t'. extendTemplate t d0 = Inr t'"
  "can_extend_children cs ds \<Longrightarrow> \<exists>cs'. extendChildren cs ds = Inr cs'"
  "can_extend_child c d \<Longrightarrow> \<exists>c'. extendChild c d = Inr c'"
proof (induction t d0 and cs ds and c d rule: extendTemplate_extendChildren_extendChild.induct)
  case (1 tg nsp ts attrs chs lst d0)
  from "1.prems" have tx: "text_schema d0 = None \<or> ts \<noteq> None"
    by simp
  from "1.prems" extend_property_returns obtain attrs' where
    a: "extend_property attrs (attributes d0) = Inr attrs'"
    by fastforce
  from "1.prems" extend_property_returns obtain lst' where
    l: "extend_property lst (eventListeners d0) = Inr lst'"
    by fastforce
  from tx have "\<exists>b. (case text_schema d0 of None \<Rightarrow> Inr ts
            | Some dt \<Rightarrow> case ts of None \<Rightarrow> Inl TypeError | Some tt \<Rightarrow> Inr (Some (tt @ dt))) = Inr b"
    by (cases "text_schema d0"; cases ts) simp_all
  then obtain b where b: "(case text_schema d0 of None \<Rightarrow> Inr ts
            | Some dt \<Rightarrow> case ts of None \<Rightarrow> Inl TypeError | Some tt \<Rightarrow> Inr (Some (tt @ dt))) = Inr b"
    by blast
  show ?case
  proof (cases "children d0")
    case None
    then show ?thesis by (simp add: extendTemplate_steps [OF a l tx])
  next
    case (Some ds)
    show ?thesis
    proof (cases ds)
      case Nil
      with Some show ?thesis by (simp add: extendTemplate_steps [OF a l tx])
    next
      case (Cons dc dcs)
      with Some "1.prems" obtain cs where cs: "chs = Some cs" "length cs = length (dc # dcs)"
        "can_extend_children cs (dc # dcs)"
        by (auto split: option.splits)
      from cs(2) have len: "\<not> length cs \<noteq> length (dc # dcs)" by simp
      from "1.IH" [OF a l b Some Cons cs(1) len cs(3)]
      obtain cs' where "extendChildren cs (dc # dcs) = Inr cs'" by blast
      with Some Cons cs show ?thesis
        by (simp add: extendTemplate_steps [OF a l tx])
    qed
  qed
next
  case (2 c cs d ds)
  then show ?case by (auto split: sum.splits)
next
  case (5 t d)
  then show ?case by (auto split: sum.splits)
qed (auto split: option.splits list.splits sum.splits simp: extend_property_not_Inl)

lemma extendChild_result:
  "extendChild c d = Inr c' \<Longrightarrow> can_extend_child c d \<Longrightarrow>
   (case (c, d) of
      (ChildTemplate tc, ChildTemplate dch) \<Rightarrow>
        can_extend tc dch \<and> (\<exists>tc'. extend tc dch = Inr tc' \<and> c' = ChildTemplate tc')
    | (c0, d1) \<Rightarrow> c' = c0)"
  by (cases c; cases d)
     (auto simp: extend_def split: sum.splits option.splits list.splits if_splits)

lemma extend_result:
  assumes "can_extend t d0"
  shows "\<exists>t'. extendTemplate t d0 = Inr t'
           \<and> tag t' = tag t \<and> ns t' = ns t
           \<and> text_schema t' =
               (case text_schema d0 of None \<Rightarrow> text_schema t
                | Some dt \<Rightarrow> Some (the (text_schema t) @ dt))
           \<and> extend_property (attributes t) (attributes d0) = Inr (attributes t')
           \<and> extend_property (eventListeners t) (eventListeners d0) = Inr (eventListeners t')
           \<and> (case children d0 of
                Some (dc # dcs) \<Rightarrow>
                  (\<exists>cs cs'. children t = Some cs \<and> children t' = Some cs'
                      \<and> length cs' = length cs
                      \<and> (\<forall>i < length cs.
                           case (cs ! i, (dc # dcs) ! i) of
                             (ChildTemplate tc, ChildTemplate dch) \<Rightarrow>
                               can_extend tc dch
                               \<and> (\<exists>tc'. extend tc dch = Inr tc' \<and> cs' ! i = ChildTemplate tc')
                           | (c0, d1) \<Rightarrow> cs' ! i = c0))
              | _ \<Rightarrow> children t' = children t)"
proof -
  obtain tg nsp ts attrs chs lst where t: "t = Template tg nsp ts attrs chs lst"
    by (cases t)
  from assms t have tx: "text_schema d0 = None \<or> ts \<noteq> None"
    by simp
  from assms t extend_property_returns obtain attrs' where
    a: "extend_property attrs (attributes d0) = Inr attrs'"
    by fastforce
  from assms t extend_property_returns obtain lst' where
    l: "extend_property lst (eventListeners d0) = Inr lst'"
    by fastforce
  note steps = extendTemplate_steps [OF a l tx, of tg nsp chs]
  show ?thesis
  proof (cases "children d0")
    case None
    then show ?thesis
      unfolding t by (simp add: steps a l cong: option.case_cong)
  next
    case (Some ds)
    show ?thesis
    proof (cases ds)
      case Nil
      with Some show ?thesis
        unfolding t by (simp add: steps a l cong: option.case_cong)
    next
      case (Cons dc dcs)
      with Some assms t obtain cs where cs: "chs = Some cs" "length cs = length (dc # dcs)"
        "can_extend_children cs (dc # dcs)"
        by (auto split: option.splits)
      from can_extend_returns(2) [OF cs(3)] obtain cs' where
        cs': "extendChildren cs (dc # dcs) = Inr cs'" by blast
      from extendChildren_nth [OF cs(2) cs']
      have len: "length cs' = length cs"
        and nth: "\<forall>i < length cs. extendChild (cs ! i) ((dc # dcs) ! i) = Inr (cs' ! i)"
        by blast+
      have kids: "case (cs ! i, (dc # dcs) ! i) of
                    (ChildTemplate tc, ChildTemplate dch) \<Rightarrow>
                      can_extend tc dch
                      \<and> (\<exists>tc'. extend tc dch = Inr tc' \<and> cs' ! i = ChildTemplate tc')
                  | (c0, d1) \<Rightarrow> cs' ! i = c0" if "i < length cs" for i
        using extendChild_result [of "cs ! i" "(dc # dcs) ! i" "cs' ! i"] nth that
          can_extend_children_nth [OF cs(2) cs(3)]
        by blast
      have r: "extendTemplate t d0 =
                 Inr (Template tg nsp
                       (case text_schema d0 of None \<Rightarrow> ts | Some dt \<Rightarrow> Some (the ts @ dt))
                       attrs' (Some cs') lst')"
        unfolding t steps by (simp add: Some Cons cs(1) cs(2) cs')
      show ?thesis
        unfolding r using kids len by (simp add: t a l Some Cons cs(1) cong: option.case_cong)
    qed
  qed
qed

text \<open>
  Claim C7. When a definition can extend a template (its attribute and listener keys can
  be merged, its children, if it has any, are as many as the template's, and its text
  meets a text, at every level), \<^verbatim>\<open>extend\<close> returns and the template is then: the same tag
  and namespace; its text with the definition's text appended; attributes and event
  listeners concatenated key by key, a new key added with the definition's array; each
  child template extended, recursively, by the child definition at the same position (which
  can extend it, so that all of this holds of the child again), each other child as it
  was.
\<close>

theorem extend_merges:
  assumes "can_extend t d0"
  shows "\<exists>t'. extend t d0 = Inr t'
           \<and> tag t' = tag t \<and> ns t' = ns t
           \<and> text_schema t' =
               (case text_schema d0 of None \<Rightarrow> text_schema t
                | Some dt \<Rightarrow> Some (the (text_schema t) @ dt))
           \<and> (attributes d0 = None \<longrightarrow> attributes t' = attributes t)
           \<and> (\<forall>da. attributes d0 = Some da \<and> distinct (map fst da) \<longrightarrow>
                 object_of (attributes t') = concat_keywise (object_of (attributes t)) (map_of da))
           \<and> (eventListeners d0 = None \<longrightarrow> eventListeners t' = eventListeners t)
           \<and> (\<forall>dl. eventListeners d0 = Some dl \<and> distinct (map fst dl) \<longrightarrow>
                 object_of (eventListeners t')
                   = concat_keywise (object_of (eventListeners t)) (map_of dl))
           \<and> (case children d0 of
                Some (dc # dcs) \<Rightarrow>
                  (\<exists>cs cs'. children t = Some cs \<and> children t' = Some cs'
                      \<and> length cs' = length cs
                      \<and> (\<forall>i < length cs.
                           case (cs ! i, (dc # dcs) ! i) of
                             (ChildTemplate tc, ChildTemplate dch) \<Rightarrow>
                               can_extend tc dch
                               \<and> (\<exists>tc'. extend tc dch = Inr tc' \<and> cs' ! i = ChildTemplate tc')
                           | (c0, d1) \<Rightarrow> cs' ! i = c0))
              | _ \<Rightarrow> children t' = children t)"
proof -
  from extend_result [OF assms] obtain t' where r: "extendTemplate t d0 = Inr t'"
    "tag t' = tag t" "ns t' = ns t"
    "text_schema t' =
               (case text_schema d0 of None \<Rightarrow> text_schema t
                | Some dt \<Rightarrow> Some (the (text_schema t) @ dt))"
    "extend_property (attributes t) (attributes d0) = Inr (attributes t')"
    "extend_property (eventListeners t) (eventListeners d0) = Inr (eventListeners t')"
    "(case children d0 of
                Some (dc # dcs) \<Rightarrow>
                  (\<exists>cs cs'. children t = Some cs \<and> children t' = Some cs'
                      \<and> length cs' = length cs
                      \<and> (\<forall>i < length cs.
                           case (cs ! i, (dc # dcs) ! i) of
                             (ChildTemplate tc, ChildTemplate dch) \<Rightarrow>
                               can_extend tc dch
                               \<and> (\<exists>tc'. extend tc dch = Inr tc' \<and> cs' ! i = ChildTemplate tc')
                           | (c0, d1) \<Rightarrow> cs' ! i = c0))
              | _ \<Rightarrow> children t' = children t)"
    by blast
  show ?thesis
  proof (intro exI [of _ t'] conjI allI impI)
    show "extend t d0 = Inr t'" by (simp add: extend_def r(1))
    show "tag t' = tag t" by (rule r(2))
    show "ns t' = ns t" by (rule r(3))
    show "text_schema t' =
               (case text_schema d0 of None \<Rightarrow> text_schema t
                | Some dt \<Rightarrow> Some (the (text_schema t) @ dt))" by (rule r(4))
    show "attributes t' = attributes t" if "attributes d0 = None"
      using that r(5) by simp
    show "object_of (attributes t') = concat_keywise (object_of (attributes t)) (map_of da)"
      if "attributes d0 = Some da \<and> distinct (map fst da)" for da
      using that r(5) extend_property_keywise [of "attributes t" da "attributes t'"] by simp
    show "eventListeners t' = eventListeners t" if "eventListeners d0 = None"
      using that r(6) by simp
    show "object_of (eventListeners t') = concat_keywise (object_of (eventListeners t)) (map_of dl)"
      if "eventListeners d0 = Some dl \<and> distinct (map fst dl)" for dl
      using that r(6) extend_property_keywise [of "eventListeners t" dl "eventListeners t'"]
      by simp
    show "(case children d0 of
                Some (dc # dcs) \<Rightarrow>
                  (\<exists>cs cs'. children t = Some cs \<and> children t' = Some cs'
                      \<and> length cs' = length cs
                      \<and> (\<forall>i < length cs.
                           case (cs ! i, (dc # dcs) ! i) of
                             (ChildTemplate tc, ChildTemplate dch) \<Rightarrow>
                               can_extend tc dch
                               \<and> (\<exists>tc'. extend tc dch = Inr tc' \<and> cs' ! i = ChildTemplate tc')
                           | (c0, d1) \<Rightarrow> cs' ! i = c0))
              | _ \<Rightarrow> children t' = children t)" by (rule r(7))
  qed
qed

lemmas extend_eval =
  extend_def extendTemplate.simps extend_property_def object_prototype_keys_def can_merge_def
  example_instance_def example_extension_def example_nested_extension_def

theorem extend_merges_witness:
  "can_extend example_instance example_nested_extension
   \<and> extend example_instance example_nested_extension =
       Inr (Template (JStr ''p'') Undefined None
              (Some [(''class'', [Lit (JStr ''a''), Lit (JStr ''b'')]),
                     (''data-x'', [Bnd (bind_to 0 1 (Name ''foo'') None)])])
              (Some [ChildTemplate
                       (Template (JStr ''span'') Undefined None
                          (Some [(''class'', [Lit (JStr ''b'')]), (''id'', [Lit (JStr ''c'')])])
                          (Some [ChildTemplate
                                   (Template Undefined Undefined
                                      (Some [Lit (JStr ''Span''), Lit (JStr ''!'')])
                                      None None None)])
                          (Some [(''click'', [Bnd (bind_to 0 1 (Name ''clicked'') None)])]))])
              None)
   \<and> extend example_instance example_extension =
       Inr (Template (JStr ''p'') Undefined None
              (Some [(''class'', [Lit (JStr ''a''), Lit (JStr ''b'')]),
                     (''data-x'', [Bnd (bind_to 0 1 (Name ''foo'') None),
                                   Bnd (bind_to 0 1 (Name ''bar'') None)])])
              (Some [ChildTemplate
                       (Template (JStr ''span'') Undefined None
                          (Some [(''class'', [Lit (JStr ''b''), Lit (JStr ''c'')])])
                          (Some [ChildTemplate
                                   (Template Undefined Undefined (Some [Lit (JStr ''Span'')])
                                      None None None)])
                          None)])
              None)"
proof -
  have h: "can_extend example_instance example_nested_extension"
    by (simp add: extend_eval)
  from extend_merges [OF h] obtain t' where
    "extend example_instance example_nested_extension = Inr t'"
    by blast
  moreover have "extend example_instance example_nested_extension =
       Inr (Template (JStr ''p'') Undefined None
              (Some [(''class'', [Lit (JStr ''a''), Lit (JStr ''b'')]),
                     (''data-x'', [Bnd (bind_to 0 1 (Name ''foo'') None)])])
              (Some [ChildTemplate
                       (Template (JStr ''span'') Undefined None
                          (Some [(''class'', [Lit (JStr ''b'')]), (''id'', [Lit (JStr ''c'')])])
                          (Some [ChildTemplate
                                   (Template Undefined Undefined
                                      (Some [Lit (JStr ''Span''), Lit (JStr ''!'')])
                                      None None None)])
                          (Some [(''click'', [Bnd (bind_to 0 1 (Name ''clicked'') None)])]))])
              None)"
    by (simp add: extend_eval)
  moreover have "extend example_instance example_extension =
       Inr (Template (JStr ''p'') Undefined None
              (Some [(''class'', [Lit (JStr ''a''), Lit (JStr ''b'')]),
                     (''data-x'', [Bnd (bind_to 0 1 (Name ''foo'') None),
                                   Bnd (bind_to 0 1 (Name ''bar'') None)])])
              (Some [ChildTemplate
                       (Template (JStr ''span'') Undefined None
                          (Some [(''class'', [Lit (JStr ''b''), Lit (JStr ''c'')])])
                          (Some [ChildTemplate
                                   (Template Undefined Undefined (Some [Lit (JStr ''Span'')])
                                      None None None)])
                          None)])
              None)"
    by (simp add: extend_eval)
  ultimately show ?thesis using h by simp
qed

text \<open>
  Claim C3, as amended. \<^verbatim>\<open>extend\<close> fails with \<^verbatim>\<open>ChildCountMismatch\<close> whenever the definition
  has at least one child and the number of its children differs from the number of
  children in the template's collection, the steps before the comparison having gone
  through (the attribute and listener keys of the definition can be merged, and its text,
  if it has one, found a text to extend); a definition with no children never fails so.
\<close>

theorem extend_child_count_mismatch:
  "(children d0 = Some dcs \<and> dcs \<noteq> [] \<and> children t = Some cs \<and> length cs \<noteq> length dcs
      \<and> can_merge (attributes t) (attributes d0)
      \<and> can_merge (eventListeners t) (eventListeners d0)
      \<and> (text_schema d0 = None \<or> text_schema t \<noteq> None)
     \<longrightarrow> extend t d0 = Inl ChildCountMismatch)
   \<and> (children d0 = None \<or> children d0 = Some [] \<longrightarrow> extend t d0 \<noteq> Inl ChildCountMismatch)"
proof (intro conjI impI)
  obtain tg nsp ts attrs chs lst where t: "t = Template tg nsp ts attrs chs lst"
    by (cases t)
  {
    assume a: "children d0 = Some dcs \<and> dcs \<noteq> [] \<and> children t = Some cs \<and> length cs \<noteq> length dcs
      \<and> can_merge (attributes t) (attributes d0)
      \<and> can_merge (eventListeners t) (eventListeners d0)
      \<and> (text_schema d0 = None \<or> text_schema t \<noteq> None)"
    then obtain dc dcs' where dcs: "dcs = dc # dcs'" by (cases dcs) auto
    from a t extend_property_returns obtain attrs' where
      ea: "extend_property attrs (attributes d0) = Inr attrs'"
      by fastforce
    from a t extend_property_returns obtain lst' where
      el: "extend_property lst (eventListeners d0) = Inr lst'"
      by fastforce
    from a t have tx: "text_schema d0 = None \<or> ts \<noteq> None" by simp
    from a show "extend t d0 = Inl ChildCountMismatch"
      by (simp add: extend_def t dcs extendTemplate_steps [OF ea el tx])
  }
  {
    assume a: "children d0 = None \<or> children d0 = Some []"
    then show "extend t d0 \<noteq> Inl ChildCountMismatch"
      unfolding extend_def t by (rule extendTemplate_no_mismatch)
  }
qed

theorem extend_child_count_mismatch_witness:
  "extend
     (Template (JStr ''p'') Undefined None None
        (Some [ChildTemplate (Template Undefined Undefined (Some [Lit (JStr ''a'')]) None None None),
               ChildTemplate (Template Undefined Undefined (Some [Lit (JStr ''b'')]) None None None)])
        None)
     (Template Undefined Undefined None (Some [(''class'', [Lit (JStr ''x'')])])
        (Some [ChildTemplate (Template Undefined Undefined (Some [Lit (JStr ''x'')]) None None None),
               ChildTemplate (Template Undefined Undefined (Some [Lit (JStr ''y'')]) None None None),
               ChildTemplate (Template Undefined Undefined (Some [Lit (JStr ''z'')]) None None None)])
        None)
   = Inl ChildCountMismatch"
  using extend_child_count_mismatch
    [of "Template Undefined Undefined None (Some [(''class'', [Lit (JStr ''x'')])])
        (Some [ChildTemplate (Template Undefined Undefined (Some [Lit (JStr ''x'')]) None None None),
               ChildTemplate (Template Undefined Undefined (Some [Lit (JStr ''y'')]) None None None),
               ChildTemplate (Template Undefined Undefined (Some [Lit (JStr ''z'')]) None None None)])
        None"
        "[ChildTemplate (Template Undefined Undefined (Some [Lit (JStr ''x'')]) None None None),
               ChildTemplate (Template Undefined Undefined (Some [Lit (JStr ''y'')]) None None None),
               ChildTemplate (Template Undefined Undefined (Some [Lit (JStr ''z'')]) None None None)]"
        "Template (JStr ''p'') Undefined None None
        (Some [ChildTemplate (Template Undefined Undefined (Some [Lit (JStr ''a'')]) None None None),
               ChildTemplate (Template Undefined Undefined (Some [Lit (JStr ''b'')]) None None None)])
        None"
        "[ChildTemplate (Template Undefined Undefined (Some [Lit (JStr ''a'')]) None None None),
               ChildTemplate (Template Undefined Undefined (Some [Lit (JStr ''b'')]) None None None)]"]
  by (simp add: can_merge_def object_prototype_keys_def)

text \<open>
  The claim as it was stated fails for a definition without children: the example of the
  documentation extends the \<^verbatim>\<open>span\<close>, which has one child, by a definition that has
  none.
\<close>

theorem extend_child_count_counterexample:
  "children (Template Undefined Undefined None (Some [(''class'', [Lit (JStr ''d'')])]) (Some []) None)
     = Some []
   \<and> children (Template (JStr ''span'') Undefined None (Some [(''class'', [Lit (JStr ''b'')])])
        (Some [ChildTemplate (Template Undefined Undefined (Some [Lit (JStr ''Span'')]) None None None)])
        None)
     = Some [ChildTemplate (Template Undefined Undefined (Some [Lit (JStr ''Span'')]) None None None)]
   \<and> extend
       (Template (JStr ''span'') Undefined None (Some [(''class'', [Lit (JStr ''b'')])])
          (Some [ChildTemplate (Template Undefined Undefined (Some [Lit (JStr ''Span'')]) None None None)])
          None)
       (Template Undefined Undefined None (Some [(''class'', [Lit (JStr ''d'')])]) (Some []) None)
     = Inr (Template (JStr ''span'') Undefined None
              (Some [(''class'', [Lit (JStr ''b''), Lit (JStr ''d'')])])
              (Some [ChildTemplate (Template Undefined Undefined (Some [Lit (JStr ''Span'')]) None None None)])
              None)"
  by (simp add: extend_def extendTemplate.simps extend_property_def)

subsection \<open>Rendering and applying\<close>

lemma attrs_only_refl: "attrs_only (Element n t as st cs) (Element n t as' st' cs)"
  by (simp add: attrs_only_def)

lemma attrs_only_trans: "attrs_only a b \<Longrightarrow> attrs_only b c \<Longrightarrow> attrs_only a c"
  by (auto simp: attrs_only_def split: dom.splits)

lemma attrs_only_same: "attrs_only a b \<Longrightarrow> attrs_only a a \<and> attrs_only b b"
  by (auto simp: attrs_only_def split: dom.splits)

lemma attrs_only_child_nodes: "attrs_only a b \<Longrightarrow> child_nodes b = child_nodes a"
  by (auto simp: attrs_only_def split: dom.splits)

lemma attrs_only_namespaceURI: "attrs_only a b \<Longrightarrow> namespaceURI b = namespaceURI a"
  by (auto simp: attrs_only_def split: dom.splits)

lemma attribute_updater_total:
  assumes "attrs_only el el" "setAttributeNS_accepts br namespace a"
  shows "\<exists>el'. upd_set (getAttributeUpdater br a namespace) v el = Inr el' \<and> attrs_only el el'"
    and "\<exists>el'. upd_remove (getAttributeUpdater br a namespace) el = Inr el' \<and> attrs_only el el'"
  using assms by (cases el; simp add: getAttributeUpdater_def attrs_only_def)+

lemma style_updater_total:
  assumes "attrs_only el el" "case namespaceURI el of None \<Rightarrow> False | Some n \<Rightarrow> has_style br n"
  shows "\<exists>el'. upd_set (getStyleUpdater br a) v el = Inr el' \<and> attrs_only el el'"
    and "\<exists>el'. upd_remove (getStyleUpdater br a) el = Inr el' \<and> attrs_only el el'"
  using assms by (cases el; simp add: getStyleUpdater_def attrs_only_def)+

lemma schema_ok_activate:
  "schema_ok valueSchema \<Longrightarrow>
   activate_all (filter has_observable (filter (\<lambda>x. \<not> item_isFalsy x) valueSchema)) vs upd =
     Inr (map (\<lambda>b. activateAttributeListener b vs upd) (bindings_of valueSchema))"
proof (rule activate_all_bindings, intro ballI impI)
  fix x
  assume "schema_ok valueSchema" "x \<in> set valueSchema" "has_observable x"
  then show "instanceof_TemplateBinding x"
    by (cases x) (auto simp: schema_ok_def list_all_iff)
qed

lemma bindToObservable_total:
  assumes ok: "schema_ok valueSchema"
    and upd_set: "\<And>v. \<exists>el'. upd_set upd v el = Inr el' \<and> R el'"
    and upd_remove: "\<exists>el'. upd_remove upd el = Inr el' \<and> R el'"
  shows "\<exists>el' es. bindToObservable obs valueSchema el upd = Inr (el', es) \<and> R el'"
proof -
  have "\<exists>el'. syncValueSchemaValue obs valueSchema el upd = Inr el' \<and> R el'"
    using upd_set upd_remove by (simp add: syncValueSchemaValue_def Let_def)
  then show ?thesis
    unfolding bindToObservable_def schema_ok_activate [OF ok] by auto
qed

lemma renderStyles_total:
  "list_all (\<lambda>(styleName, styleValue). \<not> hasTemplateBinding styleValue \<or> schema_ok [styleValue]) kvs
   \<Longrightarrow> (case namespaceURI el0 of None \<Rightarrow> False | Some n \<Rightarrow> has_style br n)
   \<Longrightarrow> attrs_only el0 el \<Longrightarrow>
   \<exists>el' es. renderStyles br obs kvs el = Inr (el', es) \<and> attrs_only el0 el'"
proof (induction kvs arbitrary: el)
  case Nil
  then show ?case by simp
next
  case (Cons kv kvs)
  obtain styleName styleValue where kv: "kv = (styleName, styleValue)" by (cases kv)
  from Cons.prems(3) have el: "attrs_only el el" by (simp add: attrs_only_same)
  from Cons.prems(2) attrs_only_namespaceURI [OF Cons.prems(3)]
  have hs: "case namespaceURI el of None \<Rightarrow> False | Some n \<Rightarrow> has_style br n" by simp
  have "\<exists>el1 es1. (if hasTemplateBinding styleValue
            then bindToObservable obs [styleValue] el (getStyleUpdater br styleName)
            else (case set_style br styleName (item_value styleValue) el of
                    Inl e \<Rightarrow> Inl e
                  | Inr el' \<Rightarrow> Inr (el', []))) = Inr (el1, es1) \<and> attrs_only el el1"
  proof (cases "hasTemplateBinding styleValue")
    case True
    with Cons.prems(1) kv have ok: "schema_ok [styleValue]" by simp
    from bindToObservable_total [where R = "attrs_only el", OF ok style_updater_total(1) [OF el hs]
        style_updater_total(2) [OF el hs]]
    show ?thesis using True by simp
  next
    case False
    then show ?thesis
      using el hs by (cases el) (simp_all add: attrs_only_def)
  qed
  then obtain el1 es1 where first: "(if hasTemplateBinding styleValue
            then bindToObservable obs [styleValue] el (getStyleUpdater br styleName)
            else (case set_style br styleName (item_value styleValue) el of
                    Inl e \<Rightarrow> Inl e
                  | Inr el' \<Rightarrow> Inr (el', []))) = Inr (el1, es1)" and el1: "attrs_only el el1"
    by blast
  from attrs_only_trans [OF Cons.prems(3) el1] have "attrs_only el0 el1" .
  from Cons.IH [OF _ Cons.prems(2) this] Cons.prems(1) obtain el2 es2 where
    "renderStyles br obs kvs el1 = Inr (el2, es2)" "attrs_only el0 el2"
    by auto
  then show ?case
    by (simp add: kv first)
qed

lemma renderAttribute_total:
  assumes "attribute_ok br (namespaceURI el0) attrName attrValue" "attrs_only el0 el"
  shows "\<exists>el' es. renderAttribute br obs attrName attrValue el = Inr (el', es)
           \<and> attrs_only el0 el'"
proof -
  from assms(2) have el: "attrs_only el el" by (simp add: attrs_only_same)
  have bind: "\<exists>el' es. bindToObservable obs vs el (getAttributeUpdater br attrName nsx) = Inr (el', es)
                \<and> attrs_only el0 el'"
    if "schema_ok vs" "setAttributeNS_accepts br nsx attrName" for vs nsx
  proof -
    from bindToObservable_total [where R = "attrs_only el", OF that(1)
        attribute_updater_total(1) [OF el that(2)] attribute_updater_total(2) [OF el that(2)]]
    obtain el' es where
      "bindToObservable obs vs el (getAttributeUpdater br attrName nsx) = Inr (el', es)"
      "attrs_only el el'" by blast
    with attrs_only_trans [OF assms(2)] show ?thesis by blast
  qed
  show ?thesis
  proof (cases "hasTemplateBinding (Arr attrValue)")
    case True
    with assms(1) have acc: "setAttributeNS_accepts br (namespace_of (attrNs attrValue)) attrName"
      by (simp add: attribute_ok_def)
    show ?thesis
    proof (cases "item_truthy (attrNs attrValue)")
      case ns: True
      with True assms(1) obtain vs where vs: "get_prop (first_item attrValue) ''value'' = Arr vs"
        "schema_ok vs"
        by (auto simp: attribute_ok_def split: item.splits)
      from bind [OF vs(2) acc] show ?thesis
        using True ns vs(1) by (simp add: renderAttribute_def)
    next
      case ns: False
      with True assms(1) have "schema_ok attrValue"
        by (simp add: attribute_ok_def)
      from bind [OF this acc] show ?thesis
        using True ns by (simp add: renderAttribute_def)
    qed
  next
    case False
    show ?thesis
    proof (cases "attrName = ''style''
              \<and> (case first_item attrValue of Lit (JStr s) \<Rightarrow> False | _ \<Rightarrow> True)")
      case True
      with False assms(1) have la: "list_all (\<lambda>(styleName, styleValue).
                    \<not> hasTemplateBinding styleValue \<or> schema_ok [styleValue])
                  (enumerate_item (first_item attrValue))"
        and hs: "enumerate_item (first_item attrValue) = []
                 \<or> (case namespaceURI el0 of None \<Rightarrow> False | Some n \<Rightarrow> has_style br n)"
        by (simp_all add: attribute_ok_def)
      have "\<exists>el' es. renderStyles br obs (enumerate_item (first_item attrValue)) el = Inr (el', es)
              \<and> attrs_only el0 el'"
      proof (cases "enumerate_item (first_item attrValue) = []")
        case True
        then show ?thesis using assms(2) by simp
      next
        case False
        with hs have "case namespaceURI el0 of None \<Rightarrow> False | Some n \<Rightarrow> has_style br n"
          by simp
        from renderStyles_total [OF la this assms(2)] show ?thesis .
      qed
      then show ?thesis
        using False True by (simp add: renderAttribute_def renderStyleAttribute_def)
    next
      case style: False
      have eq: "renderAttribute br obs attrName attrValue el =
        (if \<not> isFalsy (static_attribute_value attrValue) then
           (case setAttributeNS br (namespace_of (attrNs attrValue)) attrName
                   (static_attribute_value attrValue) el of
              Inl e \<Rightarrow> Inl e
            | Inr el' \<Rightarrow> Inr (el', []))
         else Inr (el, []))"
        unfolding renderAttribute_def if_not_P [OF False] if_not_P [OF style] ..
      show ?thesis
      proof (cases "isFalsy (static_attribute_value attrValue)")
        case True
        then show ?thesis using assms(2) by (simp add: eq)
      next
        case nf: False
        from assms(1)
        have "isFalsy (static_attribute_value attrValue)
              \<or> setAttributeNS_accepts br (namespace_of (attrNs attrValue)) attrName"
          unfolding attribute_ok_def if_not_P [OF False] if_not_P [OF style] .
        with nf
        have acc: "setAttributeNS_accepts br (namespace_of (attrNs attrValue)) attrName"
          by simp
        have "\<exists>el'. setAttributeNS br (namespace_of (attrNs attrValue)) attrName v el = Inr el'
                \<and> attrs_only el0 el'" for v
          using assms(2) acc by (cases el) (auto simp: attrs_only_def split: dom.splits)
        then obtain el' where
          "setAttributeNS br (namespace_of (attrNs attrValue)) attrName
             (static_attribute_value attrValue) el = Inr el'" "attrs_only el0 el'"
          by blast
        then show ?thesis by (simp add: eq nf)
      qed
    qed
  qed
qed

lemma renderAttributes_loop_total:
  "list_all (\<lambda>(attrName, attrValue). attribute_ok br (namespaceURI el0) attrName attrValue) as
   \<Longrightarrow> attrs_only el0 el \<Longrightarrow>
   \<exists>el' es. renderAttributes_loop br obs as el = Inr (el', es) \<and> attrs_only el0 el'"
proof (induction as arbitrary: el)
  case Nil
  then show ?case by simp
next
  case (Cons kv as)
  obtain attrName attrValue where kv: "kv = (attrName, attrValue)" by (cases kv)
  with Cons.prems(1) have "attribute_ok br (namespaceURI el0) attrName attrValue" by simp
  from renderAttribute_total [OF this Cons.prems(2)] obtain el1 es1 where
    first: "renderAttribute br obs attrName attrValue el = Inr (el1, es1)"
    and el1: "attrs_only el0 el1"
    by blast
  from Cons.IH [OF _ el1] Cons.prems(1) obtain el2 es2 where
    "renderAttributes_loop br obs as el1 = Inr (el2, es2)" "attrs_only el0 el2"
    by auto
  then show ?case by (simp add: kv first)
qed

lemma renderAttributes_total:
  assumes "attributes_ok br (namespaceURI el) attrs" "attrs_only el el"
  shows "\<exists>el' es. renderAttributes br obs attrs el = Inr (el', es) \<and> attrs_only el el'"
proof (cases attrs)
  case None
  with assms(2) show ?thesis by (simp add: renderAttributes_def)
next
  case (Some as)
  with assms(1)
  have "list_all (\<lambda>(attrName, attrValue). attribute_ok br (namespaceURI el) attrName attrValue) as"
    by (simp add: attributes_ok_def)
  from renderAttributes_loop_total [OF this assms(2)] show ?thesis
    by (simp add: renderAttributes_def Some)
qed

lemma activate_listeners_total:
  "list_all is_to_binding schema \<Longrightarrow> \<exists>es. activate_listeners schema n sel = Inr es"
proof (induction schema)
  case Nil
  then show ?case by simp
next
  case (Cons x schema)
  then obtain ob em ev a cb where x: "x = Bnd (TemplateToBinding ob em ev a cb)"
    by (cases x rule: is_to_binding.cases) auto
  from Cons obtain es where "activate_listeners schema n sel = Inr es" by auto
  then show ?case by (simp add: x)
qed

lemma setUpListeners_loop_total:
  "list_all (\<lambda>(key, schema). list_all is_to_binding schema) ls \<Longrightarrow>
   \<exists>es. setUpListeners_loop ls = Inr es"
proof (induction ls)
  case Nil
  then show ?case by simp
next
  case (Cons kv ls)
  obtain key schema where kv: "kv = (key, schema)" by (cases kv)
  with Cons.prems have "list_all is_to_binding schema" by simp
  from activate_listeners_total [OF this] obtain es1 where
    "activate_listeners schema (fst (split_key key)) (snd (split_key key)) = Inr es1" by blast
  moreover from Cons obtain es2 where "setUpListeners_loop ls = Inr es2" by auto
  ultimately show ?case by (simp add: kv)
qed

lemma setUpListeners_total:
  "listeners_ok lst \<Longrightarrow> \<exists>es. setUpListeners lst = Inr es"
  by (cases lst) (simp_all add: setUpListeners_def listeners_ok_def setUpListeners_loop_total)

lemma renderText_total:
  "\<not> hasTemplateBinding (Arr ts) \<or> schema_ok ts \<Longrightarrow>
   \<exists>node es. renderText obs ts applyNode = Inr (node, es)"
proof (cases "hasTemplateBinding (Arr ts)")
  case True
  assume "\<not> hasTemplateBinding (Arr ts) \<or> schema_ok ts"
  with True have ok: "schema_ok ts" by simp
  have "\<exists>el' es. bindToObservable obs ts el getTextUpdater = Inr (el', es) \<and> True" for el
    by (rule bindToObservable_total [OF ok]) (simp_all add: getTextUpdater_def)
  with True show ?thesis by (simp add: renderText_def Let_def)
next
  case False
  then show ?thesis by (simp add: renderText_def Let_def)
qed

lemma append_views_total:
  "list_all (\<lambda>v. element v \<noteq> None) vs \<Longrightarrow> \<exists>container'. append_views vs container = Inr container'"
proof (induction vs arbitrary: container)
  case Nil
  then show ?case by simp
next
  case (Cons v vs)
  then obtain el where "v = View (Some el)" by (cases v) auto
  with Cons show ?case by simp
qed

lemma isInvalid_render: "isInvalid t None = (\<not> exactly_one t)"
  by (auto simp: isInvalid_def exactly_one_def)

declare renderNode.simps [simp del] renderElement.simps [simp del]

lemma render_mode:
  "applyNode = None \<longrightarrow> well_typed br t \<longrightarrow>
     (if valid_tree t then (\<exists>node es. renderNode br obs t applyNode intoFragment = Inr (node, es))
      else renderNode br obs t applyNode intoFragment = Inl InvalidDefinition)"
  "applyElement = None \<longrightarrow> text_schema t' = None \<longrightarrow> truthy (tag t') \<longrightarrow> well_typed br t' \<longrightarrow>
     (\<forall>cs. children t' = Some cs \<longrightarrow>
       (if valid_children cs
        then (\<exists>node es. renderElement br obs t' applyElement intoFragment' = Inr (node, es))
        else renderElement br obs t' applyElement intoFragment' = Inl InvalidDefinition))"
  "\<not> shouldApply \<longrightarrow> well_typed_children br chs \<longrightarrow>
     (if valid_children chs
      then (\<exists>kids es. renderElementChildren br obs chs container base childIndex shouldApply
                        = Inr (kids, es))
      else renderElementChildren br obs chs container base childIndex shouldApply
             = Inl InvalidDefinition)"
proof (induction br obs t applyNode intoFragment and br obs t' applyElement intoFragment'
         and br obs chs container base childIndex shouldApply
       rule: renderNode_renderElement_renderElementChildren.induct)
  case (1 br obs tg nsp ts attrs chs lst applyNode intoFragment)
  let ?t = "Template tg nsp ts attrs chs lst"
  show ?case
  proof (intro impI)
    assume ap: "applyNode = None" and wt: "well_typed br ?t"
    show "if valid_tree ?t
          then (\<exists>node es. renderNode br obs ?t applyNode intoFragment = Inr (node, es))
          else renderNode br obs ?t applyNode intoFragment = Inl InvalidDefinition"
    proof (cases "exactly_one ?t")
      case False
      then show ?thesis
        by (simp add: ap isInvalid_render renderNode.simps)
    next
      case True
      then have ni: "\<not> isInvalid ?t applyNode" by (simp add: ap isInvalid_render)
      show ?thesis
      proof (cases ts)
        case (Some valueSchema)
        with wt have "\<not> hasTemplateBinding (Arr valueSchema) \<or> schema_ok valueSchema" by simp
        from renderText_total [OF this] show ?thesis
          using True ni Some by (simp add: renderNode.simps)
      next
        case None
        with True have tt: "truthy tg" by (simp add: exactly_one_def)
        from None wt obtain cs where cs: "chs = Some cs" by (auto split: option.splits)
        from "1.IH" [OF ni None] ap wt None cs tt
        have "if valid_children cs
              then (\<exists>node es. renderElement br obs ?t applyNode intoFragment = Inr (node, es))
              else renderElement br obs ?t applyNode intoFragment = Inl InvalidDefinition"
          by simp
        then show ?thesis
          using True ni None cs by (simp add: renderNode.simps split: if_splits)
      qed
    qed
  qed
next
  case (2 br obs tg nsp ts attrs chs lst applyElement intoFragment)
  let ?t = "Template tg nsp ts attrs chs lst"
  let ?ns = "to_string (js_or nsp (JStr xhtmlNs))"
  let ?el = "Element ?ns (to_string tg) [] [] []"
  show ?case
  proof (intro impI allI)
    fix cs
    assume ap: "applyElement = None" and tn: "text_schema ?t = None" and tt: "truthy (tag ?t)"
      and wt: "well_typed br ?t" and cs: "children ?t = Some cs"
    from wt tn tt cs have acc: "createElementNS_accepts br ?ns (to_string tg)"
      and aok: "attributes_ok br (Some ?ns) attrs" and lok: "listeners_ok lst"
      and wc: "well_typed_children br cs"
      by simp_all
    have cel: "(case applyElement of
                  None \<Rightarrow> createElementNS br ?ns (to_string tg)
                | Some x \<Rightarrow> Inr x) = Inr ?el"
      using ap acc by (simp add: createElementNS_def)
    have el_el: "attrs_only ?el ?el" by (simp add: attrs_only_def)
    from aok have aok': "attributes_ok br (namespaceURI ?el) attrs" by simp
    from renderAttributes_total [OF aok' el_el] obtain el es1 where
      ra: "renderAttributes br obs attrs ?el = Inr (el, es1)" and el: "attrs_only ?el el"
      by blast
    from el obtain n tn' as st kids0 where el_eq: "el = Element n tn' as st kids0"
      by (cases el) (auto simp: attrs_only_def)
    from setUpListeners_total [OF lok] obtain es3 where sl: "setUpListeners lst = Inr es3"
      by blast
    show "if valid_children cs
          then (\<exists>node es. renderElement br obs ?t applyElement intoFragment = Inr (node, es))
          else renderElement br obs ?t applyElement intoFragment = Inl InvalidDefinition"
    proof (cases intoFragment)
      case True
      from "2.IH"(1) [OF cel ra refl _ True, of cs] cs wc
      have "if valid_children cs
            then (\<exists>kids es. renderElementChildren br obs cs [] (length (child_nodes el)) 0 False
                              = Inr (kids, es))
            else renderElementChildren br obs cs [] (length (child_nodes el)) 0 False
                   = Inl InvalidDefinition"
        by simp
      then show ?thesis
        using cel ra cs True sl by (auto simp: el_eq renderElement.simps)
    next
      case False
      from "2.IH"(2) [OF cel ra refl _ False, of cs] cs wc ap
      have "if valid_children cs
            then (\<exists>kids es. renderElementChildren br obs cs (child_nodes el) 0 0
                              (applyElement \<noteq> None) = Inr (kids, es))
            else renderElementChildren br obs cs (child_nodes el) 0 0 (applyElement \<noteq> None)
                   = Inl InvalidDefinition"
        by simp
      then show ?thesis
        using cel ra cs False sl by (auto simp: el_eq renderElement.simps)
    qed
  qed
next
  case (3 br obs container base childIndex shouldApply)
  then show ?case by simp
next
  case (4 br obs vs rest container base childIndex shouldApply)
  show ?case
  proof (intro impI)
    assume na: "\<not> shouldApply" and wt: "well_typed_children br (ChildViewCollection vs # rest)"
    then have "list_all (\<lambda>v. element v \<noteq> None) vs" and wr: "well_typed_children br rest"
      by simp_all
    from append_views_total [OF this(1)] obtain b where b: "append_views vs container = Inr b"
      by blast
    from "4.IH"(2) [OF na b] na wr
    show "if valid_children (ChildViewCollection vs # rest)
          then (\<exists>kids es. renderElementChildren br obs (ChildViewCollection vs # rest) container
                            base childIndex shouldApply = Inr (kids, es))
          else renderElementChildren br obs (ChildViewCollection vs # rest) container base
                 childIndex shouldApply = Inl InvalidDefinition"
      using b by auto
  qed
next
  case (5 br obs v rest container base childIndex shouldApply)
  show ?case
  proof (intro impI)
    assume na: "\<not> shouldApply" and wt: "well_typed_children br (ChildView v # rest)"
    then have "list_all (\<lambda>v. element v \<noteq> None) [v]" and wr: "well_typed_children br rest"
      by simp_all
    from append_views_total [OF this(1)] obtain b where b: "append_views [v] container = Inr b"
      by blast
    from "5.IH"(2) [OF na b] na wr
    show "if valid_children (ChildView v # rest)
          then (\<exists>kids es. renderElementChildren br obs (ChildView v # rest) container
                            base childIndex shouldApply = Inr (kids, es))
          else renderElementChildren br obs (ChildView v # rest) container base
                 childIndex shouldApply = Inl InvalidDefinition"
      using b by auto
  qed
next
  case (6 br obs c rest container base childIndex shouldApply)
  show ?case
  proof (intro impI)
    assume na: "\<not> shouldApply" and wt: "well_typed_children br (ChildTemplate c # rest)"
    then have wc: "well_typed br c" and wr: "well_typed_children br rest" by simp_all
    from "6.IH"(3) [OF na] wc
    have c: "if valid_tree c then (\<exists>node es. renderNode br obs c None True = Inr (node, es))
             else renderNode br obs c None True = Inl InvalidDefinition"
      by simp
    show "if valid_children (ChildTemplate c # rest)
          then (\<exists>kids es. renderElementChildren br obs (ChildTemplate c # rest) container base
                            childIndex shouldApply = Inr (kids, es))
          else renderElementChildren br obs (ChildTemplate c # rest) container base childIndex
                 shouldApply = Inl InvalidDefinition"
    proof (cases "valid_tree c")
      case False
      with c show ?thesis using na by simp
    next
      case True
      with c obtain node es where r: "renderNode br obs c None True = Inr (node, es)" by auto
      from "6.IH"(4) [OF na r refl] na wr
      have "if valid_children rest
            then (\<exists>kids es. renderElementChildren br obs rest (container @ [node]) base childIndex
                              shouldApply = Inr (kids, es))
            else renderElementChildren br obs rest (container @ [node]) base childIndex shouldApply
                   = Inl InvalidDefinition"
        by simp
      then show ?thesis
        using True na r by auto
    qed
  qed
qed

lemma hasTemplateBinding_simps [simp]:
  "hasTemplateBinding (Lit v) = False"
  "hasTemplateBinding (Bnd b) = True"
  "hasTemplateBinding (Arr xs) = (\<exists>x \<in> set xs. hasTemplateBinding x)"
  "hasTemplateBinding (Obj kvs) =
     (case map_of kvs ''value'' of
        None \<Rightarrow> False
      | Some v \<Rightarrow>
          item_truthy v
          \<and> (case v of Arr xs \<Rightarrow> (\<exists>x \<in> set xs. hasTemplateBinding x) | Bnd b \<Rightarrow> True | _ \<Rightarrow> False))"
  by (subst hasTemplateBinding.simps;
      simp add: item_truthy_def get_prop_def split: option.splits item.splits)+

text \<open>
  Claim C1, as amended. \<^verbatim>\<open>render()\<close> throws \<^verbatim>\<open>InvalidDefinition\<close> whenever the template has not
  exactly one of \<^verbatim>\<open>tag\<close> and \<^verbatim>\<open>text\<close> set (both, or neither). For a template that the browser
  and the code can carry out (the browser accepts its tag and attribute names, at every
  level; its bindings have no callbacks; its views have elements; its value schemas and
  listeners can be activated), it throws \<^verbatim>\<open>InvalidDefinition\<close> exactly when the template or a
  child template that rendering comes to has not exactly one of the two set, and it returns
  a node when each of them has.
\<close>

theorem render_InvalidDefinition:
  "(\<not> exactly_one t \<longrightarrow> render br obs t = Inl InvalidDefinition)
   \<and> (well_typed br t \<longrightarrow>
        (render br obs t = Inl InvalidDefinition \<longleftrightarrow> \<not> valid_tree t)
        \<and> (valid_tree t \<longrightarrow> (\<exists>node es. render br obs t = Inr (node, es))))"
proof (intro conjI impI)
  assume "\<not> exactly_one t"
  then show "render br obs t = Inl InvalidDefinition"
    by (cases t) (simp add: render_def renderNode.simps isInvalid_render)
next
  assume wt: "well_typed br t"
  from render_mode(1) [of None br t obs True] wt
  have r: "if valid_tree t then (\<exists>node es. render br obs t = Inr (node, es))
           else render br obs t = Inl InvalidDefinition"
    by (simp add: render_def)
  from r show "render br obs t = Inl InvalidDefinition \<longleftrightarrow> \<not> valid_tree t"
    by (auto split: if_splits)
  show "\<exists>node es. render br obs t = Inr (node, es)" if "valid_tree t"
    using r that by simp
qed

lemmas render_eval =
  render_def renderNode.simps renderElement.simps isInvalid_def renderText_def
  renderAttributes_def renderAttribute_def setUpListeners_def createElementNS_def
  createTextNode_def array_join_def attrNs_def first_item_def namespace_of_def
  static_attribute_value_def get_prop_def item_truthy_def js_or_def xhtmlNs_def
  reduce_values_def arrayValueReducer_def example_browser_def simple_name_def local_name_def

text \<open>
  The claim as it was stated fails for a template with a child: the template has a tag and
  no text, and \<^verbatim>\<open>render()\<close> throws \<^verbatim>\<open>InvalidDefinition\<close> for the child, which has neither.
\<close>

theorem render_InvalidDefinition_counterexample:
  "exactly_one
     (Template (JStr ''p'') Undefined None None
        (Some [ChildTemplate (Template Undefined Undefined None None (Some []) None)]) None)
   \<and> render example_browser (\<lambda>r k. Undefined)
       (Template (JStr ''p'') Undefined None None
          (Some [ChildTemplate (Template Undefined Undefined None None (Some []) None)]) None)
     = Inl InvalidDefinition"
  by (simp add: exactly_one_def render_eval)

theorem render_InvalidDefinition_witness:
  "well_typed example_browser
     (Template (JStr ''p'') Undefined None (Some [(''class'', [Lit (JStr ''foo'')])])
        (Some [ChildTemplate
                 (Template Undefined Undefined (Some [Lit (JStr ''hello'')]) None None None),
               ChildTemplate
                 (Template Undefined Undefined (Some [Bnd (bind_to 0 1 (Name ''b'') None)])
                    None None None)])
        None)
   \<and> render example_browser (\<lambda>r k. JStr ''there'')
     (Template (JStr ''p'') Undefined None (Some [(''class'', [Lit (JStr ''foo'')])])
        (Some [ChildTemplate
                 (Template Undefined Undefined (Some [Lit (JStr ''hello'')]) None None None),
               ChildTemplate
                 (Template Undefined Undefined (Some [Bnd (bind_to 0 1 (Name ''b'') None)])
                    None None None)])
        None)
   = Inr (Element ''http://www.w3.org/1999/xhtml'' ''p'' [((None, ''class''), ''foo'')] []
            [TextNode ''hello'', TextNode ''there''],
          [ListenToObservable [ChildAt 1] 1 0 (Name ''b'') [Bnd (bind_to 0 1 (Name ''b'') None)]
             getTextUpdater])
   \<and> render example_browser (\<lambda>r k. Undefined)
       (Template (JStr ''p'') Undefined (Some [Lit (JStr ''hello'')]) None None None)
     = Inl InvalidDefinition
   \<and> render example_browser (\<lambda>r k. Undefined)
       (Template Undefined Undefined None None (Some []) None)
     = Inl InvalidDefinition"
  using render_InvalidDefinition
          [of "Template (JStr ''p'') Undefined None (Some [(''class'', [Lit (JStr ''foo'')])])
                (Some [ChildTemplate
                  (Template Undefined Undefined (Some [Lit (JStr ''hello'')]) None None None),
                  ChildTemplate
                  (Template Undefined Undefined (Some [Bnd (bind_to 0 1 (Name ''b'') None)])
                     None None None)])
                None" example_browser "\<lambda>r k. JStr ''there''"]
        render_InvalidDefinition
          [of "Template (JStr ''p'') Undefined (Some [Lit (JStr ''hello'')]) None None None"
              example_browser "\<lambda>r k. Undefined"]
        render_InvalidDefinition
          [of "Template Undefined Undefined None None (Some []) None" example_browser
              "\<lambda>r k. Undefined"]
  by (simp add: exactly_one_def render_eval sync_eval schema_ok_def attributes_ok_def
                attribute_ok_def listeners_ok_def)

lemma applicable_children_update:
  "i < j \<Longrightarrow>
   applicable_children br cs (container[i := x]) j = applicable_children br cs container j"
proof (induction cs arbitrary: j)
  case Nil
  then show ?case by simp
next
  case (Cons c cs)
  then show ?case by (cases c) simp_all
qed

lemma isInvalid_apply: "isInvalid t (Some n) = (truthy (tag t) \<and> text_schema t \<noteq> None)"
  by (simp add: isInvalid_def)

lemma is_element_attrs_only: "is_element n \<Longrightarrow> attrs_only n n"
  by (cases n) (simp_all add: attrs_only_def)

lemma apply_mode:
  "\<forall>n. applyNode = Some n \<longrightarrow> \<not> intoFragment \<longrightarrow> applicable br t n \<longrightarrow>
     (\<exists>n' es. renderNode br obs t applyNode intoFragment = Inr (n', es)
        \<and> (text_schema t = None \<longrightarrow> shape_kept n n'))"
  "\<forall>n. applyElement = Some n \<longrightarrow> \<not> intoFragment' \<longrightarrow> text_schema t' = None \<longrightarrow> is_element n \<longrightarrow>
     attributes_ok br (namespaceURI n) (attributes t') \<longrightarrow> listeners_ok (eventListeners t') \<longrightarrow>
     (\<forall>cs. children t' = Some cs \<longrightarrow> applicable_children br cs (child_nodes n) 0 \<longrightarrow>
        (\<exists>n' es. renderElement br obs t' applyElement intoFragment' = Inr (n', es)
           \<and> shape_kept n n'))"
  "shouldApply \<longrightarrow> applicable_children br chs container childIndex \<longrightarrow>
     (\<exists>kids es. renderElementChildren br obs chs container base childIndex shouldApply
                   = Inr (kids, es) \<and> length kids = length container)"
proof (induction br obs t applyNode intoFragment and br obs t' applyElement intoFragment'
         and br obs chs container base childIndex shouldApply
       rule: renderNode_renderElement_renderElementChildren.induct)
  case (1 br obs tg nsp ts attrs chs lst applyNode intoFragment)
  let ?t = "Template tg nsp ts attrs chs lst"
  show ?case
  proof (intro allI impI)
    fix n
    assume ap: "applyNode = Some n" and nf: "\<not> intoFragment" and a: "applicable br ?t n"
    from a have ni: "\<not> isInvalid ?t applyNode" by (simp add: ap isInvalid_apply)
    show "\<exists>n' es. renderNode br obs ?t applyNode intoFragment = Inr (n', es)
            \<and> (text_schema ?t = None \<longrightarrow> shape_kept n n')"
    proof (cases ts)
      case (Some valueSchema)
      with a have "\<not> hasTemplateBinding (Arr valueSchema) \<or> schema_ok valueSchema" by simp
      from renderText_total [OF this] show ?thesis
        using ni Some by (simp add: renderNode.simps)
    next
      case None
      with a obtain cs where cs: "chs = Some cs" and el: "is_element n"
        and aok: "attributes_ok br (namespaceURI n) attrs" and lok: "listeners_ok lst"
        and ac: "applicable_children br cs (child_nodes n) 0"
        by (auto split: option.splits)
      from "1.IH" [OF ni None] ap nf None el aok lok cs ac
      have "\<exists>n' es. renderElement br obs ?t applyNode intoFragment = Inr (n', es) \<and> shape_kept n n'"
        by simp
      then show ?thesis
        using ni None by (simp add: renderNode.simps)
    qed
  qed
next
  case (2 br obs tg nsp ts attrs chs lst applyElement intoFragment)
  let ?t = "Template tg nsp ts attrs chs lst"
  show ?case
  proof (intro impI allI)
    fix n cs
    assume ap: "applyElement = Some n" and nf: "\<not> intoFragment" and el: "is_element n"
      and aok: "attributes_ok br (namespaceURI n) (attributes ?t)"
      and lok: "listeners_ok (eventListeners ?t)"
      and cs: "children ?t = Some cs" and ac: "applicable_children br cs (child_nodes n) 0"
    from aok have aok': "attributes_ok br (namespaceURI n) attrs" by simp
    from renderAttributes_total [OF aok' is_element_attrs_only [OF el]] obtain el' es1 where
      ra: "renderAttributes br obs attrs n = Inr (el', es1)" and el': "attrs_only n el'"
      by blast
    have cel: "(case applyElement of
                  None \<Rightarrow> createElementNS br (to_string (js_or nsp (JStr xhtmlNs))) (to_string tg)
                | Some x \<Rightarrow> Inr x) = Inr n"
      using ap by simp
    from lok have lok': "listeners_ok lst" by simp
    from setUpListeners_total [OF lok'] obtain es3 where sl: "setUpListeners lst = Inr es3"
      by blast
    from attrs_only_child_nodes [OF el'] have cn: "child_nodes el' = child_nodes n" .
    from "2.IH"(2) [OF cel ra refl _ nf, of cs] cs ap ac cn
    obtain kids es2 where
      rc: "renderElementChildren br obs cs (child_nodes el') 0 0 (applyElement \<noteq> None)
             = Inr (kids, es2)"
      and len: "length kids = length (child_nodes n)"
      by auto
    have "shape_kept n (with_childNodes kids el')"
      using el' len by (cases n; cases el') (simp_all add: attrs_only_def shape_kept_def)
    then show "\<exists>n' es. renderElement br obs ?t applyElement intoFragment = Inr (n', es)
            \<and> shape_kept n n'"
      using cel ra cs nf rc sl by (simp add: renderElement.simps)
  qed
next
  case (3 br obs container base childIndex shouldApply)
  then show ?case by simp
next
  case (4 br obs vs rest container base childIndex shouldApply)
  then show ?case by auto
next
  case (5 br obs v rest container base childIndex shouldApply)
  then show ?case by auto
next
  case (6 br obs c rest container base childIndex shouldApply)
  let ?node = "if childIndex < length container then Some (container ! childIndex) else None"
  show ?case
  proof (intro impI)
    assume sa: shouldApply
      and ac: "applicable_children br (ChildTemplate c # rest) container childIndex"
    have "\<exists>node es. renderNode br obs c ?node False = Inr (node, es)"
    proof (cases "childIndex < length container")
      case True
      with ac have "applicable br c (container ! childIndex)" by simp
      with "6.IH"(1) [OF sa] True show ?thesis by auto
    next
      case False
      with ac have "well_typed br c" "valid_tree c" by simp_all
      with render_mode(1) [of None br c obs False] False show ?thesis by simp
    qed
    then obtain node es where r: "renderNode br obs c ?node False = Inr (node, es)" by blast
    let ?container' = "if childIndex < length container then container[childIndex := node]
                        else container"
    from ac have "applicable_children br rest container (Suc childIndex)" by simp
    then have "applicable_children br rest ?container' (Suc childIndex)"
      by (simp add: applicable_children_update)
    with "6.IH"(2) [OF sa r refl] sa obtain kids es' where
      "renderElementChildren br obs rest ?container' base (Suc childIndex) shouldApply
         = Inr (kids, es')"
      "length kids = length ?container'"
      by auto
    then show "\<exists>kids es. renderElementChildren br obs (ChildTemplate c # rest) container base
                   childIndex shouldApply = Inr (kids, es) \<and> length kids = length container"
      using sa r by (auto split: if_splits)
  qed
qed

text \<open>
  Claim C2. \<^verbatim>\<open>apply\<close> without a node throws \<^verbatim>\<open>MissingTarget\<close>; with a node, it throws
  \<^verbatim>\<open>InvalidDefinition\<close> when both \<^verbatim>\<open>tag\<close> and \<^verbatim>\<open>text\<close> are set; a template with neither
  passes the check and goes on as an element template on the node given, and where the
  browser and the code can carry out its attributes, listeners and children on that node
  (the browser accepts the attribute names, and the tags of the children it has to make;
  the bindings have no callbacks), \<^verbatim>\<open>apply\<close> returns the node with its namespace, tag and
  number of child nodes as they were.
\<close>

theorem apply_errors:
  "apply_template br obs t None = Inl MissingTarget
   \<and> (truthy (tag t) \<and> text_schema t \<noteq> None
        \<longrightarrow> apply_template br obs t (Some n) = Inl InvalidDefinition)
   \<and> (\<not> truthy (tag t) \<and> text_schema t = None
        \<longrightarrow> apply_template br obs t (Some n) = renderElement br obs t (Some n) False)
   \<and> (\<not> truthy (tag t) \<and> text_schema t = None \<and> applicable br t n
        \<longrightarrow> (\<exists>n' es. apply_template br obs t (Some n) = Inr (n', es) \<and> shape_kept n n'))"
proof (intro conjI impI)
  show "apply_template br obs t None = Inl MissingTarget"
    by (simp add: apply_template_def)
  show "apply_template br obs t (Some n) = Inl InvalidDefinition"
    if "truthy (tag t) \<and> text_schema t \<noteq> None"
    using that by (cases t) (simp add: apply_template_def renderNode.simps isInvalid_apply)
  show "apply_template br obs t (Some n) = renderElement br obs t (Some n) False"
    if "\<not> truthy (tag t) \<and> text_schema t = None"
    using that by (cases t) (simp add: apply_template_def renderNode.simps isInvalid_apply)
  show "\<exists>n' es. apply_template br obs t (Some n) = Inr (n', es) \<and> shape_kept n n'"
    if "\<not> truthy (tag t) \<and> text_schema t = None \<and> applicable br t n"
    using that apply_mode(1) [of "Some n" False br t obs] by (simp add: apply_template_def)
qed

theorem apply_errors_witness:
  "apply_template example_browser (\<lambda>r k. JStr ''my-div'')
     (Template (JStr ''p'') Undefined (Some [Lit (JStr ''x'')]) None None None)
     (Some (Element ''ns'' ''div'' [] [] []))
   = Inl InvalidDefinition
   \<and> applicable example_browser
       (Template Undefined Undefined None
          (Some [(''id'', [Lit (JStr ''first-div'')]),
                 (''class'', [Bnd (bind_to 0 1 (Name ''divClass'') None)])])
          (Some [ChildTemplate
                   (Template Undefined Undefined (Some [Lit (JStr ''Div text.'')]) None None None)])
          (Some [(''click'', [Bnd (bind_to 0 1 (Name ''elementClicked'') None)])]))
       (Element ''ns'' ''div'' [] [] [TextNode ''old''])
   \<and> apply_template example_browser (\<lambda>r k. JStr ''my-div'')
       (Template Undefined Undefined None
          (Some [(''id'', [Lit (JStr ''first-div'')]),
                 (''class'', [Bnd (bind_to 0 1 (Name ''divClass'') None)])])
          (Some [ChildTemplate
                   (Template Undefined Undefined (Some [Lit (JStr ''Div text.'')]) None None None)])
          (Some [(''click'', [Bnd (bind_to 0 1 (Name ''elementClicked'') None)])]))
       (Some (Element ''ns'' ''div'' [] [] [TextNode ''old'']))
   = Inr (Element ''ns'' ''div'' [((None, ''id''), ''first-div''), ((None, ''class''), ''my-div'')] []
            [TextNode ''Div text.''],
          [ListenToObservable [] 1 0 (Name ''divClass'')
             [Bnd (bind_to 0 1 (Name ''divClass'') None)]
             (getAttributeUpdater example_browser ''class'' None),
           ListenToDom [] 1 ''click'' None (bind_to 0 1 (Name ''elementClicked'') None)])"
  using apply_errors
          [of example_browser "\<lambda>r k. JStr ''my-div''"
              "Template (JStr ''p'') Undefined (Some [Lit (JStr ''x'')]) None None None"
              "Element ''ns'' ''div'' [] [] []"]
        apply_errors
          [of example_browser "\<lambda>r k. JStr ''my-div''"
              "Template Undefined Undefined None
                 (Some [(''id'', [Lit (JStr ''first-div'')]),
                        (''class'', [Bnd (bind_to 0 1 (Name ''divClass'') None)])])
                 (Some [ChildTemplate
                   (Template Undefined Undefined (Some [Lit (JStr ''Div text.'')]) None None None)])
                 (Some [(''click'', [Bnd (bind_to 0 1 (Name ''elementClicked'') None)])])"
              "Element ''ns'' ''div'' [] [] [TextNode ''old'']"]
  by (simp add: apply_template_def render_eval sync_eval split_key_def shape_kept_def bindings_of_def
                schema_ok_def attributes_ok_def attribute_ok_def listeners_ok_def)

end
